theory Spec2Isabelle
  imports Main
begin

section \<open>The DataStore plugin of CKAN: start-up checks and bootstrap\<close>

text \<open>
  A shallow embedding of \<^verbatim>\<open>ckanext/datastore/plugin.py\<close>. The plugin object is a
  record, every exception is a value of \<open>error\<close>, and the database, the logger and the
  action registry are an explicit world that each method takes and returns.
\<close>

subsection \<open>Python values and exceptions\<close>

text \<open>Configuration values: strings (the URLs) and booleans (\<^verbatim>\<open>debug\<close>).\<close>

datatype pyval = Str string | Bool bool

fun truthy :: "pyval \<Rightarrow> bool" where
  "truthy (Str s) = (s \<noteq> [])"
| "truthy (Bool b) = b"

type_synonym config = "string \<rightharpoonup> pyval"

text \<open>
  \<open>DatastoreException\<close> and \<open>Exception\<close> carry their message; \<open>DBAPIError\<close> is
  whatever the database driver raises, with the driver's message.
\<close>

datatype error =
    DatastoreException string
  | Exception string
  | ValueError
  | KeyError string
  | AttributeError
  | IndexError
  | UnboundLocalError
  | DBAPIError string

text \<open>\<^verbatim>\<open>d[k]\<close> on a dictionary.\<close>

definition getitem :: "config \<Rightarrow> string \<Rightarrow> error + pyval" where
  "getitem d k = (case d k of None \<Rightarrow> Inl (KeyError k) | Some v \<Rightarrow> Inr v)"

text \<open>\<^verbatim>\<open>self.attr\<close> on an attribute that may not have been assigned yet.\<close>

definition getattr :: "'a option \<Rightarrow> error + 'a" where
  "getattr a = (case a of None \<Rightarrow> Inl AttributeError | Some v \<Rightarrow> Inr v)"

subsection \<open>The plugin object\<close>

record plugin =
  legacy_mode :: bool
  config :: "config option"
  ckan_url :: "pyval option"
  write_url :: "pyval option"
  read_url :: "pyval option"

text \<open>A fresh instance: only the class attribute \<^verbatim>\<open>legacy_mode = False\<close> exists.\<close>

definition DatastorePlugin :: plugin where
  "DatastorePlugin =
     \<lparr>legacy_mode = False, config = None, ckan_url = None, write_url = None, read_url = None\<rparr>"

subsection \<open>The database part of a connection URL\<close>

text \<open>
  \<^verbatim>\<open>s.rindex("@")\<close>: the index of the last occurrence, ValueError when there is none.
\<close>

definition rindex :: "string \<Rightarrow> char \<Rightarrow> error + nat" where
  "rindex s c =
     (if c \<in> set s
      then Inr (length s - Suc (length (takeWhile (\<lambda>x. x \<noteq> c) (rev s))))
      else Inl ValueError)"

text \<open>\<^verbatim>\<open>url[url.rindex("@"):]\<close>; a value that is not a string has no \<^verbatim>\<open>rindex\<close>.\<close>

fun get_db_from_url :: "pyval \<Rightarrow> error + string" where
  "get_db_from_url (Str url) =
     (case rindex url (CHR ''@'') of Inl e \<Rightarrow> Inl e | Inr i \<Rightarrow> Inr (drop i url))"
| "get_db_from_url (Bool b) = Inl AttributeError"

text \<open>
  \<^verbatim>\<open>_same_ckan_and_datastore_db\<close>: the comparison of the write and the read URL is made
  outside legacy mode only; the two database parts are extracted primary first.
\<close>

definition same_ckan_and_datastore_db :: "plugin \<Rightarrow> error + bool" where
  "same_ckan_and_datastore_db self =
     (case (if legacy_mode self then Inr False
            else (case getattr (write_url self) of
                    Inl e \<Rightarrow> Inl e
                  | Inr w \<Rightarrow>
                      (case getattr (read_url self) of
                         Inl e \<Rightarrow> Inl e
                       | Inr r \<Rightarrow> Inr (w = r)))) of
        Inl e \<Rightarrow> Inl e
      | Inr True \<Rightarrow> Inr True
      | Inr False \<Rightarrow>
          (case getattr (ckan_url self) of
             Inl e \<Rightarrow> Inl e
           | Inr c \<Rightarrow>
               (case get_db_from_url c of
                  Inl e \<Rightarrow> Inl e
                | Inr a \<Rightarrow>
                    (case getattr (read_url self) of
                       Inl e \<Rightarrow> Inl e
                     | Inr r \<Rightarrow>
                         (case get_db_from_url r of
                            Inl e \<Rightarrow> Inl e
                          | Inr b \<Rightarrow> Inr (a = b))))))"

subsection \<open>The database, the logger and the action registry\<close>

datatype privilege = INSERT | UPDATE | DELETE

text \<open>
  The statements the plugin sends, one constructor for each SQL text of the source:
  \<^item> \<open>HasSchemaPrivilege\<close>: \<^verbatim>\<open>SELECT has_schema_privilege('public', 'CREATE')\<close>
  \<^item> \<open>DropIfExistsFoo\<close>: \<^verbatim>\<open>DROP TABLE IF EXISTS public._foo;\<close>
  \<^item> \<open>CreateFoo\<close>: \<^verbatim>\<open>CREATE TABLE public._foo ()\<close>
  \<^item> \<open>HasTablePrivilege p\<close>: \<^verbatim>\<open>SELECT has_table_privilege('_foo', 'p')\<close>
  \<^item> \<open>DropFoo\<close>: \<^verbatim>\<open>DROP TABLE _foo\<close>
  \<^item> \<open>CreateAliasTable\<close>: \<^verbatim>\<open>CREATE OR REPLACE VIEW "_table_metadata" AS ...\<close>
  \<^item> \<open>CreateIsValidType\<close>: \<^verbatim>\<open>CREATE OR REPLACE FUNCTION is_valid_type(v_type text) ...\<close>
  \<^item> \<open>SelectTableMetadata\<close>:
    \<^verbatim>\<open>SELECT 1 FROM "_table_metadata" WHERE name = %s AND alias_of IS NULL\<close>
\<close>

datatype sql =
    HasSchemaPrivilege
  | DropIfExistsFoo
  | CreateFoo
  | HasTablePrivilege privilege
  | DropFoo
  | CreateAliasTable
  | CreateIsValidType
  | SelectTableMetadata

text \<open>
  What reaches the database: \<^verbatim>\<open>db._get_engine(..., {'connection_url': url}).connect()\<close>,
  \<^verbatim>\<open>connection.execute(sql, *params)\<close> on the connection of a URL, and
  \<^verbatim>\<open>connection.close()\<close>. The database answers each call by raising (\<open>Failed\<close>, with
  the driver's message) or by returning; \<open>Returned b\<close> carries the boolean of the first
  row's first column (for \<^verbatim>\<open>fetchone()\<close>: whether there is a row).
\<close>

datatype call = Connect pyval | Execute pyval sql "pyval list" | Close pyval

datatype reply = Failed string | Returned bool

datatype level = WARN | CRITICAL

text \<open>
  The function registered as \<^verbatim>\<open>resource_show\<close>: the platform's own, or
  \<^verbatim>\<open>new_resource_show\<close> closed over the function it wraps. Only the latter carries the
  attribute \<^verbatim>\<open>_datastore_wrapped\<close>.
\<close>

datatype action = ResourceShow | NewResourceShow action

fun hasattr_datastore_wrapped :: "action \<Rightarrow> bool" where
  "hasattr_datastore_wrapped ResourceShow = False"
| "hasattr_datastore_wrapped (NewResourceShow a) = True"

text \<open>
  What the plugin reads from its surroundings and cannot change:
  \<^verbatim>\<open>model.engine_is_pg()\<close>, \<^verbatim>\<open>sys.argv\<close>, \<^verbatim>\<open>pylons.config\<close>, the answers of the
  database (a function of everything asked so far and of the call), and the platform's
  \<^verbatim>\<open>resource_show\<close>.
\<close>

record backend =
  engine_is_pg :: bool
  argv :: "string list"
  pylons_config :: config
  respond :: "(call \<times> reply) list \<Rightarrow> call \<Rightarrow> reply"
  resource_show :: "config \<Rightarrow> error + config"

text \<open>
  What the plugin changes: the calls made so far with their answers, whether the probe
  table \<^verbatim>\<open>public._foo\<close> exists, the log records, and \<^verbatim>\<open>logic._actions['resource_show']\<close>.
\<close>

record world =
  trace :: "(call \<times> reply) list"
  foo :: bool
  log_records :: "(level \<times> string) list"
  actions_resource_show :: action

text \<open>A statement that the database carried out creates or drops the probe table.\<close>

fun foo_after :: "call \<Rightarrow> bool \<Rightarrow> bool" where
  "foo_after (Execute url DropIfExistsFoo ps) b = False"
| "foo_after (Execute url CreateFoo ps) b = True"
| "foo_after (Execute url DropFoo ps) b = False"
| "foo_after c b = b"

definition db_call :: "backend \<Rightarrow> call \<Rightarrow> world \<Rightarrow> (error + bool) \<times> world" where
  "db_call be c w =
     (let r = respond be (trace w) c;
          w' = w\<lparr>trace := trace w @ [(c, r)]\<rparr>
      in case r of
           Failed m \<Rightarrow> (Inl (DBAPIError m), w')
         | Returned v \<Rightarrow> (Inr v, w'\<lparr>foo := foo_after c (foo w)\<rparr>))"

definition log_warn :: "string \<Rightarrow> world \<Rightarrow> world" where
  "log_warn msg w = w\<lparr>log_records := log_records w @ [(WARN, msg)]\<rparr>"

definition log_critical :: "string \<Rightarrow> world \<Rightarrow> world" where
  "log_critical msg w = w\<lparr>log_records := log_records w @ [(CRITICAL, msg)]\<rparr>"

subsection \<open>The checks\<close>

text \<open>
  \<^verbatim>\<open>_is_read_only_database\<close>: the loop over the three URLs returns False at the first
  connection that has CREATE on the public schema.
\<close>

fun is_read_only_loop :: "backend \<Rightarrow> pyval list \<Rightarrow> world \<Rightarrow> (error + bool) \<times> world" where
  "is_read_only_loop be [] w = (Inr True, w)"
| "is_read_only_loop be (url # urls) w =
     (case db_call be (Connect url) w of
        (Inl e, w1) \<Rightarrow> (Inl e, w1)
      | (Inr _, w1) \<Rightarrow>
          (case db_call be (Execute url HasSchemaPrivilege []) w1 of
             (Inl e, w2) \<Rightarrow> (Inl e, w2)
           | (Inr is_writable, w2) \<Rightarrow>
               if is_writable then (Inr False, w2) else is_read_only_loop be urls w2))"

definition is_read_only_database :: "backend \<Rightarrow> plugin \<Rightarrow> world \<Rightarrow> (error + bool) \<times> world" where
  "is_read_only_database be self w =
     (case getattr (ckan_url self) of
        Inl e \<Rightarrow> (Inl e, w)
      | Inr c \<Rightarrow>
          (case getattr (write_url self) of
             Inl e \<Rightarrow> (Inl e, w)
           | Inr wu \<Rightarrow>
               (case getattr (read_url self) of
                  Inl e \<Rightarrow> (Inl e, w)
                | Inr ru \<Rightarrow> is_read_only_loop be [c, wu, ru] w)))"

text \<open>
  \<^verbatim>\<open>_read_connection_has_correct_privileges\<close>. The loop over the three privileges gives
  \<open>Inr False\<close> for the \<^verbatim>\<open>return False\<close> inside it and \<open>Inr True\<close> when it runs to its
  end. The first \<^verbatim>\<open>execute\<close> gets the CREATE text as a parameter of the DROP statement.
  The \<^verbatim>\<open>finally\<close> clause runs after the body whatever its outcome, and an exception
  raised there replaces that outcome.
\<close>

fun privilege_loop :: "backend \<Rightarrow> pyval \<Rightarrow> privilege list \<Rightarrow> world \<Rightarrow> (error + bool) \<times> world" where
  "privilege_loop be ru [] w = (Inr True, w)"
| "privilege_loop be ru (p # ps) w =
     (case db_call be (Execute ru (HasTablePrivilege p) []) w of
        (Inl e, w1) \<Rightarrow> (Inl e, w1)
      | (Inr have_privilege, w1) \<Rightarrow>
          if have_privilege then (Inr False, w1) else privilege_loop be ru ps w1)"

definition probe_body :: "backend \<Rightarrow> pyval \<Rightarrow> pyval \<Rightarrow> world \<Rightarrow> (error + bool) \<times> world" where
  "probe_body be wu ru w =
     (case db_call be (Execute wu CreateFoo []) w of
        (Inl e, w1) \<Rightarrow> (Inl e, w1)
      | (Inr _, w1) \<Rightarrow> privilege_loop be ru [INSERT, UPDATE, DELETE] w1)"

definition read_connection_has_correct_privileges ::
    "backend \<Rightarrow> plugin \<Rightarrow> world \<Rightarrow> (error + bool) \<times> world" where
  "read_connection_has_correct_privileges be self w =
     (case getattr (write_url self) of
        Inl e \<Rightarrow> (Inl e, w)
      | Inr wu \<Rightarrow>
     (case db_call be (Connect wu) w of
        (Inl e, w1) \<Rightarrow> (Inl e, w1)
      | (Inr _, w1) \<Rightarrow>
     (case db_call be (Execute wu DropIfExistsFoo [Str ''CREATE TABLE public._foo ()'']) w1 of
        (Inl e, w2) \<Rightarrow> (Inl e, w2)
      | (Inr _, w2) \<Rightarrow>
     (case getattr (read_url self) of
        Inl e \<Rightarrow> (Inl e, w2)
      | Inr ru \<Rightarrow>
     (case db_call be (Connect ru) w2 of
        (Inl e, w3) \<Rightarrow> (Inl e, w3)
      | (Inr _, w3) \<Rightarrow>
     (case probe_body be wu ru w3 of
        (outcome, w4) \<Rightarrow>
     (case db_call be (Execute wu DropFoo []) w4 of
        (Inl e, w5) \<Rightarrow> (Inl e, w5)
      | (Inr _, w5) \<Rightarrow> (outcome, w5))))))))"

subsection \<open>The two schema objects\<close>

definition create_alias_table :: "backend \<Rightarrow> world \<Rightarrow> (error + unit) \<times> world" where
  "create_alias_table be w =
     (case getitem (pylons_config be) ''ckan.datastore.write_url'' of
        Inl e \<Rightarrow> (Inl e, w)
      | Inr url \<Rightarrow>
          (case db_call be (Connect url) w of
             (Inl e, w1) \<Rightarrow> (Inl e, w1)
           | (Inr _, w1) \<Rightarrow>
               (case db_call be (Execute url CreateAliasTable []) w1 of
                  (Inl e, w2) \<Rightarrow> (Inl e, w2)
                | (Inr _, w2) \<Rightarrow> (Inr (), w2))))"

definition add_is_valid_type_function :: "backend \<Rightarrow> world \<Rightarrow> (error + unit) \<times> world" where
  "add_is_valid_type_function be w =
     (case getitem (pylons_config be) ''ckan.datastore.write_url'' of
        Inl e \<Rightarrow> (Inl e, w)
      | Inr url \<Rightarrow>
          (case db_call be (Connect url) w of
             (Inl e, w1) \<Rightarrow> (Inl e, w1)
           | (Inr _, w1) \<Rightarrow>
               (case db_call be (Execute url CreateIsValidType []) w1 of
                  (Inl e, w2) \<Rightarrow> (Inl e, w2)
                | (Inr _, w2) \<Rightarrow> (Inr (), w2))))"

subsection \<open>The wrapper around \<^verbatim>\<open>resource_show\<close>\<close>

text \<open>
  Calling the registered function. \<^verbatim>\<open>new_resource_show\<close> reads \<^verbatim>\<open>self.read_url\<close> when
  it is called, calls the function it wraps, then asks the database once and closes the
  connection in a \<^verbatim>\<open>finally\<close> clause; when \<^verbatim>\<open>engine.connect()\<close> raises, the local
  \<^verbatim>\<open>connection\<close> is unbound in that clause.
\<close>

fun call_action ::
    "backend \<Rightarrow> plugin \<Rightarrow> action \<Rightarrow> config \<Rightarrow> world \<Rightarrow> (error + config) \<times> world" where
  "call_action be self ResourceShow data_dict w = (resource_show be data_dict, w)"
| "call_action be self (NewResourceShow wrapped) data_dict w =
     (case getattr (read_url self) of
        Inl e \<Rightarrow> (Inl e, w)
      | Inr ru \<Rightarrow>
     (case call_action be self wrapped data_dict w of
        (Inl e, w1) \<Rightarrow> (Inl e, w1)
      | (Inr new_data_dict, w1) \<Rightarrow>
     (case db_call be (Connect ru) w1 of
        (Inl e, w2) \<Rightarrow> (Inl UnboundLocalError, w2)
      | (Inr _, w2) \<Rightarrow>
     (case (case getitem new_data_dict ''id'' of
              Inl e \<Rightarrow> (Inl e, w2)
            | Inr ident \<Rightarrow>
                (case db_call be (Execute ru SelectTableMetadata [ident]) w2 of
                   (Inl e, w3) \<Rightarrow> (Inl e, w3)
                 | (Inr result, w3) \<Rightarrow>
                     (Inr (new_data_dict(''datastore_active'' \<mapsto> Bool result)), w3))) of
        (outcome, w4) \<Rightarrow>
     (case db_call be (Close ru) w4 of
        (Inl e, w5) \<Rightarrow> (Inl e, w5)
      | (Inr _, w5) \<Rightarrow> (outcome, w5))))))"

text \<open>
  Modelled from the spec: \<^verbatim>\<open>p.toolkit.get_action\<close> belongs to the platform's
  \<^verbatim>\<open>ckan.logic\<close>, which is not among the sources. It gives the function registered under
  the name, here the entry that \<^verbatim>\<open>logic._actions['resource_show'] = ...\<close> replaces (the
  decoration is \<^emph>\<open>applied at most once per process\<close> by consulting a marker on it).
\<close>

definition get_action :: "world \<Rightarrow> action" where
  "get_action w = actions_resource_show w"

text \<open>
  Lines 87 to 113 of \<^verbatim>\<open>configure\<close>: the registered function is replaced by its wrapper
  unless it carries the attribute.
\<close>

definition wrap_resource_show :: "world \<Rightarrow> world" where
  "wrap_resource_show w =
     (let resource_show = get_action w
      in if \<not> hasattr_datastore_wrapped resource_show
         then w\<lparr>actions_resource_show := NewResourceShow resource_show\<rparr>
         else w)"

subsection \<open>\<^verbatim>\<open>configure\<close>\<close>

abbreviation write_url_key :: string where
  "write_url_key \<equiv> ''ckan.datastore.write_url''"

abbreviation read_url_key :: string where
  "read_url_key \<equiv> ''ckan.datastore.read_url''"

abbreviation msg_not_found :: string where
  "msg_not_found \<equiv> ''ckan.datastore.write_url not found in config''"

abbreviation msg_paster :: string where
  "msg_paster \<equiv> ''Omitting permission checks because you are running paster commands.''"

abbreviation msg_same_db :: string where
  "msg_same_db \<equiv> ''The write and read-only database connection url are the same.''"

abbreviation msg_legacy :: string where
  "msg_legacy \<equiv> ''Legacy mode active. The sql search will not be available.''"

abbreviation msg_write_permissions :: string where
  "msg_write_permissions \<equiv> ''We have write permissions on the read-only database.''"

abbreviation msg_read_only :: string where
  "msg_read_only \<equiv> ''We detected that CKAN is running on a read only database. Permission checks and the creation of _table_metadata are skipped.''"

abbreviation msg_not_pg :: string where
  "msg_not_pg \<equiv> ''We detected that you do not use a PostgreSQL database. The DataStore will NOT work and datastore tests will be skipped.''"

text \<open>\<^verbatim>\<open>'debug' in config and config['debug']\<close>\<close>

definition debug_set :: "config \<Rightarrow> bool" where
  "debug_set cfg = (case cfg ''debug'' of None \<Rightarrow> False | Some v \<Rightarrow> truthy v)"

text \<open>
  \<^verbatim>\<open>sys.argv[0].split('/')[-1] == 'paster' and 'datastore' in sys.argv[1:]\<close>; the last
  part of a split is what follows the last separator.
\<close>

definition last_part :: "string \<Rightarrow> string" where
  "last_part s = rev (takeWhile (\<lambda>c. c \<noteq> CHR ''/'') (rev s))"

definition running_paster :: "string list \<Rightarrow> error + bool" where
  "running_paster av =
     (case av of
        [] \<Rightarrow> Inl IndexError
      | a0 # rest \<Rightarrow> Inr (last_part a0 = ''paster'' \<and> ''datastore'' \<in> set rest))"

text \<open>Lines 54 to 80: the checks and the alias table, by engine and kind of database.\<close>

definition permission_checks :: "backend \<Rightarrow> plugin \<Rightarrow> config \<Rightarrow> world \<Rightarrow> (error + unit) \<times> world" where
  "permission_checks be self cfg w =
     (if engine_is_pg be then
        (case is_read_only_database be self w of
           (Inl e, w1) \<Rightarrow> (Inl e, w1)
         | (Inr True, w1) \<Rightarrow> (Inr (), log_warn msg_read_only w1)
         | (Inr False, w1) \<Rightarrow>
             (case (if \<not> debug_set cfg then same_ckan_and_datastore_db self else Inr False) of
                Inl e \<Rightarrow> (Inl e, w1)
              | Inr True \<Rightarrow> (Inl (Exception msg_same_db), w1)
              | Inr False \<Rightarrow>
                  (case (if legacy_mode self then (Inr (), log_warn msg_legacy w1)
                         else (case read_connection_has_correct_privileges be self w1 of
                                 (Inl e, w2) \<Rightarrow> (Inl e, w2)
                               | (Inr True, w2) \<Rightarrow> (Inr (), w2)
                               | (Inr False, w2) \<Rightarrow>
                                   if debug_set cfg
                                   then (Inr (), log_critical msg_write_permissions w2)
                                   else (Inl (Exception msg_write_permissions), w2))) of
                     (Inl e, w3) \<Rightarrow> (Inl e, w3)
                   | (Inr _, w3) \<Rightarrow> create_alias_table be w3)))
      else (Inr (), log_warn msg_not_pg w))"

definition configure ::
    "backend \<Rightarrow> plugin \<Rightarrow> config \<Rightarrow> world \<Rightarrow> (error + unit) \<times> plugin \<times> world" where
  "configure be self0 cfg w =
     (let self1 = self0\<lparr>config := Some cfg\<rparr> in
      if cfg write_url_key = None
      then (Inl (DatastoreException msg_not_found), self1, w)
      else
     (let self2 = self1\<lparr>legacy_mode := (cfg read_url_key = None)\<rparr> in
      case running_paster (argv be) of
        Inl e \<Rightarrow> (Inl e, self2, w)
      | Inr True \<Rightarrow> (Inr (), self2, log_warn msg_paster w)
      | Inr False \<Rightarrow>
     (case getitem cfg ''sqlalchemy.url'' of
        Inl e \<Rightarrow> (Inl e, self2, w)
      | Inr c \<Rightarrow>
     (let self3 = self2\<lparr>ckan_url := Some c\<rparr> in
      case getitem cfg write_url_key of
        Inl e \<Rightarrow> (Inl e, self3, w)
      | Inr wu \<Rightarrow>
     (let self4 = self3\<lparr>write_url := Some wu\<rparr> in
      case (if legacy_mode self4 then getattr (write_url self4) else getitem cfg read_url_key) of
        Inl e \<Rightarrow> (Inl e, self4, w)
      | Inr ru \<Rightarrow>
     (let self5 = self4\<lparr>read_url := Some ru\<rparr> in
      case permission_checks be self5 cfg w of
        (Inl e, w1) \<Rightarrow> (Inl e, self5, w1)
      | (Inr _, w1) \<Rightarrow>
     (case add_is_valid_type_function be (wrap_resource_show w1) of
        (Inl e, w2) \<Rightarrow> (Inl e, self5, w2)
      | (Inr _, w2) \<Rightarrow> (Inr (), self5, w2))))))))"

text \<open>
  \<^verbatim>\<open>configure\<close> called once for each configuration of a list, in one process, whatever
  each call raises: the outcomes of the calls, and the plugin and the world at the end.
\<close>

fun configure_all ::
    "backend \<Rightarrow> plugin \<Rightarrow> config list \<Rightarrow> world \<Rightarrow> (error + unit) list \<times> plugin \<times> world" where
  "configure_all be self [] w = ([], self, w)"
| "configure_all be self (cfg # cfgs) w =
     (case configure be self cfg w of
        (outcome, self', w') \<Rightarrow>
          (case configure_all be self' cfgs w' of
             (outcomes, self'', w'') \<Rightarrow> (outcome # outcomes, self'', w'')))"

text \<open>How many times \<^verbatim>\<open>new_resource_show\<close> is wrapped around the platform's function.\<close>

fun wraps :: "action \<Rightarrow> nat" where
  "wraps ResourceShow = 0"
| "wraps (NewResourceShow a) = Suc (wraps a)"

subsection \<open>Notions for stating the properties, and example inputs\<close>

text \<open>Full mode, the write and the read URL equal, the primary database elsewhere.\<close>

definition example_full :: plugin where
  "example_full =
     \<lparr>legacy_mode = False, config = None,
      ckan_url = Some (Str ''postgres://c:p@main/ckan''),
      write_url = Some (Str ''postgres://u:p@host/db''),
      read_url = Some (Str ''postgres://u:p@host/db'')\<rparr>"

text \<open>
  The plugin as lines 28 to 52 of \<^verbatim>\<open>configure\<close> leave it when they run to their end,
  with the three URLs they read.
\<close>

definition assigned :: "plugin \<Rightarrow> config \<Rightarrow> pyval \<Rightarrow> pyval \<Rightarrow> pyval \<Rightarrow> plugin" where
  "assigned self cfg c wu ru =
     self\<lparr>config := Some cfg, legacy_mode := (cfg read_url_key = None),
          ckan_url := Some c, write_url := Some wu, read_url := Some ru\<rparr>"

text \<open>
  A database that carries out every call: \<open>creates\<close> says which URLs have CREATE on the
  public schema, \<open>grants\<close> which privileges the read role has on the probe table.
\<close>

fun answers ::
    "(pyval \<Rightarrow> bool) \<Rightarrow> (privilege \<Rightarrow> bool) \<Rightarrow> (call \<times> reply) list \<Rightarrow> call \<Rightarrow> reply" where
  "answers creates grants h (Execute url HasSchemaPrivilege ps) = Returned (creates url)"
| "answers creates grants h (Execute url (HasTablePrivilege p) ps) = Returned (grants p)"
| "answers creates grants h (Execute url SelectTableMetadata ps) = Returned False"
| "answers creates grants h c = Returned True"

definition stub_backend :: "bool \<Rightarrow> (pyval \<Rightarrow> bool) \<Rightarrow> (privilege \<Rightarrow> bool) \<Rightarrow> backend" where
  "stub_backend pg creates grants =
     \<lparr>engine_is_pg = pg, argv = [''/usr/bin/paster'', ''serve'', ''development.ini''],
      pylons_config = [write_url_key \<mapsto> Str ''postgres://w:p@host/datastore''],
      respond = answers creates grants,
      resource_show = (\<lambda>data_dict. Inr data_dict)\<rparr>"

definition empty_world :: world where
  "empty_world =
     \<lparr>trace = [], foo = False, log_records = [], actions_resource_show = ResourceShow\<rparr>"

text \<open>Legacy mode: no read URL; the write URL is in the database of the primary URL.\<close>

definition legacy_config :: config where
  "legacy_config =
     [''sqlalchemy.url'' \<mapsto> Str ''postgres://c:p@host/datastore'',
      write_url_key \<mapsto> Str ''postgres://w:p@host/datastore'']"

text \<open>The SQL statements of a trace, in the order they were sent.\<close>

fun statements :: "(call \<times> reply) list \<Rightarrow> sql list" where
  "statements [] = []"
| "statements ((Execute url q ps, r) # t) = q # statements t"
| "statements ((c, r) # t) = statements t"

text \<open>PostgreSQL, every URL with CREATE on the public schema, a read role without grants.\<close>

definition writable_backend :: backend where
  "writable_backend = stub_backend True (\<lambda>u. True) (\<lambda>p. False)"

text \<open>Legacy mode with the write URL in a database of its own.\<close>

definition legacy_separate_config :: config where
  "legacy_separate_config =
     [''sqlalchemy.url'' \<mapsto> Str ''postgres://c:p@main/ckan'',
      write_url_key \<mapsto> Str ''postgres://w:p@host/datastore'']"

text \<open>
  What \<^verbatim>\<open>configure\<close> does once the checks are behind it: the alias view, the wrapping of
  \<^verbatim>\<open>resource_show\<close>, the type function.
\<close>

definition bootstrap :: "backend \<Rightarrow> world \<Rightarrow> (error + unit) \<times> world" where
  "bootstrap be w =
     (case create_alias_table be w of
        (Inl e, w1) \<Rightarrow> (Inl e, w1)
      | (Inr u, w1) \<Rightarrow> add_is_valid_type_function be (wrap_resource_show w1))"

text \<open>As \<open>writable_backend\<close>, with UPDATE granted to the read role on the probe table.\<close>

definition leaky_backend :: backend where
  "leaky_backend = stub_backend True (\<lambda>u. True) (\<lambda>p. p = UPDATE)"

text \<open>Full mode with \<^verbatim>\<open>debug\<close> set; the three URLs are in one database.\<close>

definition debug_same_db_config :: config where
  "debug_same_db_config =
     [''sqlalchemy.url'' \<mapsto> Str ''postgres://c:p@host/datastore'',
      write_url_key \<mapsto> Str ''postgres://w:p@host/datastore'',
      read_url_key \<mapsto> Str ''postgres://r:p@host/datastore'',
      ''debug'' \<mapsto> Bool True]"

text \<open>URLs without credentials, hence without \<open>@\<close>.\<close>

definition no_at_full :: plugin where
  "no_at_full =
     \<lparr>legacy_mode = False, config = None,
      ckan_url = Some (Str ''postgres://main/ckan''),
      write_url = Some (Str ''postgres://host/datastore''),
      read_url = Some (Str ''postgres://host/datastore'')\<rparr>"

definition debug_no_at_config :: config where
  "debug_no_at_config =
     [''sqlalchemy.url'' \<mapsto> Str ''postgres://main/ckan'',
      write_url_key \<mapsto> Str ''postgres://host/datastore'',
      read_url_key \<mapsto> Str ''postgres://host/datastore_ro'',
      ''debug'' \<mapsto> Bool True]"

definition no_at_config :: config where
  "no_at_config =
     [''sqlalchemy.url'' \<mapsto> Str ''postgres://main/ckan'',
      write_url_key \<mapsto> Str ''postgres://host/datastore'',
      read_url_key \<mapsto> Str ''postgres://host/datastore_ro'']"

text \<open>
  A database that refuses one statement and carries out every other call, granting every
  privilege that is asked about.
\<close>

fun answers_except :: "sql \<Rightarrow> (call \<times> reply) list \<Rightarrow> call \<Rightarrow> reply" where
  "answers_except q h (Execute url q' ps) = (if q' = q then Failed ''refused'' else Returned True)"
| "answers_except q h c = Returned True"

definition failing_backend :: "sql \<Rightarrow> backend" where
  "failing_backend q =
     \<lparr>engine_is_pg = True, argv = [''/usr/bin/paster'', ''serve'', ''development.ini''],
      pylons_config = [write_url_key \<mapsto> Str ''postgres://w:p@host/datastore''],
      respond = answers_except q,
      resource_show = (\<lambda>data_dict. Inr data_dict)\<rparr>"

text \<open>Full mode with a write role and a read role on one database.\<close>

definition example_roles :: plugin where
  "example_roles =
     \<lparr>legacy_mode = False, config = None,
      ckan_url = Some (Str ''postgres://c:p@main/ckan''),
      write_url = Some (Str ''postgres://w:p@host/datastore''),
      read_url = Some (Str ''postgres://r:p@host/datastore'')\<rparr>"

text \<open>The statements sent between an earlier and a later world.\<close>

definition issued :: "world \<Rightarrow> world \<Rightarrow> sql list" where
  "issued w w' = statements (drop (length (trace w)) (trace w'))"

text \<open>The later world extends the trace of the earlier one by statements of \<open>S\<close> only.\<close>

definition sends :: "sql set \<Rightarrow> world \<Rightarrow> world \<Rightarrow> bool" where
  "sends S w w' = (\<exists>t. trace w' = trace w @ t \<and> set (statements t) \<subseteq> S)"

text \<open>The statements of the privilege probe.\<close>

abbreviation probe_statements :: "sql set" where
  "probe_statements \<equiv> {DropIfExistsFoo, CreateFoo, DropFoo} \<union> range HasTablePrivilege"

text \<open>An engine that is not PostgreSQL, and a read-only replica: no URL has CREATE.\<close>

definition other_engine_backend :: backend where
  "other_engine_backend = stub_backend False (\<lambda>u. True) (\<lambda>p. False)"

definition replica_backend :: backend where
  "replica_backend = stub_backend True (\<lambda>u. False) (\<lambda>p. False)"

text \<open>Full mode, the datastore in a database of its own.\<close>

definition separate_config :: config where
  "separate_config =
     [''sqlalchemy.url'' \<mapsto> Str ''postgres://c:p@main/ckan'',
      write_url_key \<mapsto> Str ''postgres://w:p@host/datastore'',
      read_url_key \<mapsto> Str ''postgres://r:p@host/datastore'']"

text \<open>\<^verbatim>\<open>configure\<close> run twice in a row on a writable database.\<close>

definition twice :: "(error + unit) list \<times> plugin \<times> world" where
  "twice = configure_all writable_backend DatastorePlugin [separate_config, separate_config]
             empty_world"

text \<open>The process is a paster datastore command.\<close>

definition paster_backend :: backend where
  "paster_backend =
     writable_backend\<lparr>argv := [''/usr/bin/paster'', ''--plugin=ckan'', ''datastore'',
                                ''set-permissions'']\<rparr>"

text \<open>
  A read-only replica as PostgreSQL behaves: no role has CREATE on the public schema, and
  every statement that would write is refused.
\<close>

fun replica_answers :: "(call \<times> reply) list \<Rightarrow> call \<Rightarrow> reply" where
  "replica_answers h (Execute url HasSchemaPrivilege ps) = Returned False"
| "replica_answers h (Execute url (HasTablePrivilege p) ps) = Returned False"
| "replica_answers h (Execute url SelectTableMetadata ps) = Returned False"
| "replica_answers h (Execute url q ps) =
     Failed ''cannot execute in a read-only transaction''"
| "replica_answers h c = Returned True"

definition strict_replica_backend :: backend where
  "strict_replica_backend =
     \<lparr>engine_is_pg = True, argv = [''/usr/bin/paster'', ''serve'', ''development.ini''],
      pylons_config = [write_url_key \<mapsto> Str ''postgres://w:p@host/datastore''],
      respond = replica_answers,
      resource_show = (\<lambda>data_dict. Inr data_dict)\<rparr>"

section \<open>Properties\<close>

subsection \<open>The database part of a URL\<close>

lemma rindex_last: "c \<notin> set suf \<Longrightarrow> rindex (pre @ c # suf) c = Inr (length pre)"
proof -
  assume a: "c \<notin> set suf"
  have "\<And>x. x \<in> set (rev suf) \<Longrightarrow> x \<noteq> c"
    using a by auto
  then have "takeWhile (\<lambda>x. x \<noteq> c) (rev suf @ c # rev pre)
               = rev suf @ takeWhile (\<lambda>x. x \<noteq> c) (c # rev pre)"
    by (rule takeWhile_append2)
  then have "takeWhile (\<lambda>x. x \<noteq> c) (rev suf @ c # rev pre) = rev suf"
    by simp
  then show ?thesis
    by (simp add: rindex_def)
qed

lemma rindex_none: "c \<notin> set s \<Longrightarrow> rindex s c = Inl ValueError"
  by (simp add: rindex_def)

lemma get_db_from_url_last_at:
  "CHR ''@'' \<notin> set suf \<Longrightarrow>
     get_db_from_url (Str (pre @ CHR ''@'' # suf)) = Inr (CHR ''@'' # suf)"
  by (simp add: rindex_last)

lemma get_db_from_url_no_at:
  "CHR ''@'' \<notin> set url \<Longrightarrow> get_db_from_url (Str url) = Inl ValueError"
  by (simp add: rindex_none)

lemma same_db_True_iff:
  assumes "ckan_url self = Some c" and "write_url self = Some wu" and "read_url self = Some ru"
  shows "same_ckan_and_datastore_db self = Inr True
            \<longleftrightarrow> (\<not> legacy_mode self \<and> wu = ru)
                \<or> (\<exists>d. get_db_from_url c = Inr d \<and> get_db_from_url ru = Inr d)"
  using assms
  by (auto simp: same_ckan_and_datastore_db_def getattr_def
           simp del: get_db_from_url.simps split: sum.splits bool.splits)

text \<open>
  C1. With the three URLs assigned, \<^verbatim>\<open>_same_ckan_and_datastore_db\<close> returns True exactly
  when the mode is Full and the write URL equals the read URL, or the database parts of
  the primary and of the read URL both exist and are equal. The database part of a URL
  is what starts at its last \<open>@\<close>. In particular, equal write and read URLs in Full
  mode give True whatever the primary URL is.
\<close>

theorem same_db_iff:
  assumes "ckan_url self = Some c" and "write_url self = Some wu" and "read_url self = Some ru"
  shows "(same_ckan_and_datastore_db self = Inr True
            \<longleftrightarrow> (\<not> legacy_mode self \<and> wu = ru)
                \<or> (\<exists>d. get_db_from_url c = Inr d \<and> get_db_from_url ru = Inr d))
         \<and> (\<forall>pre suf. CHR ''@'' \<notin> set suf \<longrightarrow>
               get_db_from_url (Str (pre @ CHR ''@'' # suf)) = Inr (CHR ''@'' # suf))
         \<and> (\<not> legacy_mode self \<and> wu = ru \<longrightarrow> same_ckan_and_datastore_db self = Inr True)"
proof (intro conjI allI impI)
  show "same_ckan_and_datastore_db self = Inr True
            \<longleftrightarrow> (\<not> legacy_mode self \<and> wu = ru)
                \<or> (\<exists>d. get_db_from_url c = Inr d \<and> get_db_from_url ru = Inr d)"
    by (rule same_db_True_iff [OF assms])
next
  fix pre suf assume "CHR ''@'' \<notin> set suf"
  then show "get_db_from_url (Str (pre @ CHR ''@'' # suf)) = Inr (CHR ''@'' # suf)"
    by (rule get_db_from_url_last_at)
next
  assume "\<not> legacy_mode self \<and> wu = ru"
  then show "same_ckan_and_datastore_db self = Inr True"
    using same_db_True_iff [OF assms] by simp
qed

theorem same_db_iff_witness:
  "same_ckan_and_datastore_db example_full = Inr True
   \<and> get_db_from_url (Str ''postgres://u:p@host/db'') = Inr ''@host/db''"
proof -
  have h: "ckan_url example_full = Some (Str ''postgres://c:p@main/ckan'')"
          "write_url example_full = Some (Str ''postgres://u:p@host/db'')"
          "read_url example_full = Some (Str ''postgres://u:p@host/db'')"
    by (simp_all add: example_full_def)
  note t = same_db_iff [OF h]
  have l: "\<not> legacy_mode example_full" by (simp add: example_full_def)
  from t l have a: "same_ckan_and_datastore_db example_full = Inr True" by simp
  from t have "CHR ''@'' \<notin> set ''host/db'' \<longrightarrow>
      get_db_from_url (Str (''postgres://u:p'' @ CHR ''@'' # ''host/db''))
        = Inr (CHR ''@'' # ''host/db'')"
    by blast
  then have b: "get_db_from_url (Str ''postgres://u:p@host/db'') = Inr ''@host/db''" by simp
  from a b show ?thesis by simp
qed

subsection \<open>Reading the configuration\<close>

lemma configure_assigned:
  assumes "cfg write_url_key = Some wu" and "running_paster (argv be) = Inr False"
    and "cfg ''sqlalchemy.url'' = Some c"
    and "ru = (case cfg read_url_key of None \<Rightarrow> wu | Some r \<Rightarrow> r)"
  shows "configure be self cfg w =
     (case permission_checks be (assigned self cfg c wu ru) cfg w of
        (Inl e, w1) \<Rightarrow> (Inl e, assigned self cfg c wu ru, w1)
      | (Inr u, w1) \<Rightarrow>
          (case add_is_valid_type_function be (wrap_resource_show w1) of
             (Inl e, w2) \<Rightarrow> (Inl e, assigned self cfg c wu ru, w2)
           | (Inr u, w2) \<Rightarrow> (Inr (), assigned self cfg c wu ru, w2)))"
  using assms
  by (simp add: configure_def assigned_def getitem_def getattr_def Let_def
           split: option.splits cong: sum.case_cong)

lemma stub_not_paster: "running_paster (argv (stub_backend pg creates grants)) = Inr False"
  by (simp add: running_paster_def stub_backend_def)

text \<open>
  C8. A configuration without \<^verbatim>\<open>ckan.datastore.write_url\<close> makes \<^verbatim>\<open>configure\<close> raise
  DatastoreException at once: the world is as before, so no connection was asked for
  and no statement sent.
\<close>

theorem missing_write_url:
  assumes "cfg write_url_key = None"
  shows "fst (configure be self cfg w) = Inl (DatastoreException msg_not_found)
         \<and> snd (snd (configure be self cfg w)) = w
         \<and> trace (snd (snd (configure be self cfg w))) = trace w"
  using assms by (simp add: configure_def Let_def)

theorem missing_write_url_witness:
  "fst (configure (stub_backend True (\<lambda>u. True) (\<lambda>p. False)) DatastorePlugin Map.empty empty_world)
     = Inl (DatastoreException msg_not_found)
   \<and> trace (snd (snd (configure (stub_backend True (\<lambda>u. True) (\<lambda>p. False))
                        DatastorePlugin Map.empty empty_world))) = []"
proof -
  have h: "(Map.empty :: config) write_url_key = None" by simp
  show ?thesis
    using missing_write_url [of Map.empty "stub_backend True (\<lambda>u. True) (\<lambda>p. False)"
        DatastorePlugin empty_world] h
    by (simp add: empty_world_def)
qed

text \<open>
  C9 (as amended). When the write URL is configured, \<^verbatim>\<open>configure\<close> leaves
  \<^verbatim>\<open>legacy_mode\<close> true exactly when \<^verbatim>\<open>ckan.datastore.read_url\<close> is absent, on every
  path. When it goes on to assign the URLs (the process is not a paster datastore command
  and the primary URL is configured), the read URL in legacy mode is the write URL of the
  configuration. In a paster datastore command it returns normally before that, and the
  three URL attributes are what they were before the call.
\<close>

theorem legacy_iff_no_read_url:
  assumes "cfg write_url_key = Some wu"
  shows "(legacy_mode (fst (snd (configure be self cfg w))) \<longleftrightarrow> cfg read_url_key = None)
         \<and> (cfg read_url_key = None \<and> running_paster (argv be) = Inr False
              \<and> cfg ''sqlalchemy.url'' \<noteq> None \<longrightarrow>
            read_url (fst (snd (configure be self cfg w))) = Some wu
            \<and> write_url (fst (snd (configure be self cfg w))) = Some wu)
         \<and> (running_paster (argv be) = Inr True \<longrightarrow>
            fst (configure be self cfg w) = Inr ()
            \<and> ckan_url (fst (snd (configure be self cfg w))) = ckan_url self
            \<and> write_url (fst (snd (configure be self cfg w))) = write_url self
            \<and> read_url (fst (snd (configure be self cfg w))) = read_url self)"
proof (intro conjI)
  show "legacy_mode (fst (snd (configure be self cfg w))) \<longleftrightarrow> cfg read_url_key = None"
    using assms
    by (auto simp: configure_def getitem_def getattr_def Let_def
             split: option.splits sum.splits prod.splits bool.splits)
next
  show "cfg read_url_key = None \<and> running_paster (argv be) = Inr False
              \<and> cfg ''sqlalchemy.url'' \<noteq> None \<longrightarrow>
            read_url (fst (snd (configure be self cfg w))) = Some wu
            \<and> write_url (fst (snd (configure be self cfg w))) = Some wu"
    using assms
    by (auto simp: configure_def getitem_def getattr_def Let_def
             split: option.splits sum.splits prod.splits bool.splits)
next
  show "running_paster (argv be) = Inr True \<longrightarrow>
            fst (configure be self cfg w) = Inr ()
            \<and> ckan_url (fst (snd (configure be self cfg w))) = ckan_url self
            \<and> write_url (fst (snd (configure be self cfg w))) = write_url self
            \<and> read_url (fst (snd (configure be self cfg w))) = read_url self"
    using assms by (simp add: configure_def Let_def)
qed

lemma paster_backend_paster: "running_paster (argv paster_backend) = Inr True"
  by (simp add: running_paster_def last_part_def paster_backend_def)

theorem legacy_iff_no_read_url_witness:
  "legacy_mode (fst (snd (configure (stub_backend True (\<lambda>u. True) (\<lambda>p. False))
                            DatastorePlugin legacy_config empty_world)))
   \<and> read_url (fst (snd (configure (stub_backend True (\<lambda>u. True) (\<lambda>p. False))
                            DatastorePlugin legacy_config empty_world)))
       = Some (Str ''postgres://w:p@host/datastore'')
   \<and> fst (configure paster_backend example_full legacy_config empty_world) = Inr ()
   \<and> read_url (fst (snd (configure paster_backend example_full legacy_config empty_world)))
       = Some (Str ''postgres://u:p@host/db'')"
proof -
  have h: "legacy_config write_url_key = Some (Str ''postgres://w:p@host/datastore'')"
    by (simp add: legacy_config_def)
  have r: "legacy_config read_url_key = None"
    by (simp add: legacy_config_def)
  have c: "legacy_config ''sqlalchemy.url'' \<noteq> None"
    by (simp add: legacy_config_def)
  have e: "read_url example_full = Some (Str ''postgres://u:p@host/db'')"
    by (simp add: example_full_def)
  have a: "legacy_mode (fst (snd (configure (stub_backend True (\<lambda>u. True) (\<lambda>p. False))
                            DatastorePlugin legacy_config empty_world)))
   \<and> read_url (fst (snd (configure (stub_backend True (\<lambda>u. True) (\<lambda>p. False))
                            DatastorePlugin legacy_config empty_world)))
       = Some (Str ''postgres://w:p@host/datastore'')"
    using legacy_iff_no_read_url [of legacy_config "Str ''postgres://w:p@host/datastore''"
        "stub_backend True (\<lambda>u. True) (\<lambda>p. False)" DatastorePlugin empty_world]
      h r c stub_not_paster
    by simp
  have b: "fst (configure paster_backend example_full legacy_config empty_world) = Inr ()
   \<and> read_url (fst (snd (configure paster_backend example_full legacy_config empty_world)))
       = Some (Str ''postgres://u:p@host/db'')"
    using legacy_iff_no_read_url [of legacy_config "Str ''postgres://w:p@host/datastore''"
        paster_backend example_full empty_world]
      h e paster_backend_paster
    by simp
  from a b show ?thesis by simp
qed

text \<open>
  A paster datastore command with a legacy configuration: \<^verbatim>\<open>configure\<close> returns
  normally with \<^verbatim>\<open>legacy_mode\<close> true and no read URL assigned, although the write URL
  is configured.
\<close>

theorem legacy_paster_counterexample:
  "fst (configure paster_backend DatastorePlugin legacy_separate_config empty_world) = Inr ()
   \<and> legacy_mode (fst (snd (configure paster_backend DatastorePlugin legacy_separate_config
                               empty_world)))
   \<and> read_url (fst (snd (configure paster_backend DatastorePlugin legacy_separate_config
                             empty_world))) = None
   \<and> legacy_separate_config write_url_key = Some (Str ''postgres://w:p@host/datastore'')"
  by (simp add: configure_def Let_def running_paster_def last_part_def paster_backend_def
      legacy_separate_config_def DatastorePlugin_def)

subsection \<open>The read-only check\<close>

lemma is_read_only_loop_result:
  assumes conn: "\<forall>h u. \<exists>b. respond be h (Connect u) = Returned b"
      and priv: "\<forall>h u. respond be h (Execute u HasSchemaPrivilege []) = Returned (creates u)"
  shows "fst (is_read_only_loop be us w) = Inr (list_all (\<lambda>u. \<not> creates u) us)"
proof (induction us arbitrary: w)
  case Nil
  show ?case by simp
next
  case (Cons u us)
  obtain b where b: "respond be (trace w) (Connect u) = Returned b"
    using conn by blast
  show ?case
    by (simp add: db_call_def Let_def b priv Cons.IH)
qed

lemma is_read_only_loop_calls:
  assumes conn: "\<forall>h u. \<exists>b. respond be h (Connect u) = Returned b"
      and priv: "\<forall>h u. respond be h (Execute u HasSchemaPrivilege []) = Returned (creates u)"
  shows "length (trace (snd (is_read_only_loop be us w)))
           = length (trace w)
             + 2 * min (length us) (Suc (length (takeWhile (\<lambda>u. \<not> creates u) us)))"
proof (induction us arbitrary: w)
  case Nil
  show ?case by simp
next
  case (Cons u us)
  obtain b where b: "respond be (trace w) (Connect u) = Returned b"
    using conn by blast
  show ?case
    by (simp add: db_call_def Let_def b priv Cons.IH)
qed

text \<open>
  C5. Against a database that accepts every connection and answers the CREATE question
  by \<open>creates\<close>, \<^verbatim>\<open>_is_read_only_database\<close> returns True exactly when none of the primary,
  write and read URLs has CREATE on the public schema. It stops at the first one that
  has it: two calls (connect and query) when it is the primary URL, four when it is the
  write URL, six otherwise.
\<close>

theorem is_read_only_iff_no_create:
  assumes "ckan_url self = Some c" and "write_url self = Some wu" and "read_url self = Some ru"
      and conn: "\<forall>h u. \<exists>b. respond be h (Connect u) = Returned b"
      and priv: "\<forall>h u. respond be h (Execute u HasSchemaPrivilege []) = Returned (creates u)"
  shows "fst (is_read_only_database be self w)
           = Inr (\<not> creates c \<and> \<not> creates wu \<and> \<not> creates ru)
         \<and> length (trace (snd (is_read_only_database be self w)))
             = length (trace w) + (if creates c then 2 else if creates wu then 4 else 6)"
  using assms(1-3) is_read_only_loop_result [OF conn priv, of "[c, wu, ru]" w]
    is_read_only_loop_calls [OF conn priv, of "[c, wu, ru]" w]
  by (simp add: is_read_only_database_def getattr_def)

theorem is_read_only_iff_no_create_witness:
  "fst (is_read_only_database
          (stub_backend True (\<lambda>u. u = Str ''postgres://c:p@main/ckan'') (\<lambda>p. False))
          example_full empty_world) = Inr False
   \<and> fst (is_read_only_database (stub_backend True (\<lambda>u. False) (\<lambda>p. False))
          example_full empty_world) = Inr True"
proof -
  have h: "ckan_url example_full = Some (Str ''postgres://c:p@main/ckan'')"
          "write_url example_full = Some (Str ''postgres://u:p@host/db'')"
          "read_url example_full = Some (Str ''postgres://u:p@host/db'')"
    by (simp_all add: example_full_def)
  have conn: "\<forall>h u. \<exists>b. respond (stub_backend True creates (\<lambda>p. False)) h (Connect u) = Returned b"
    for creates
    by (auto simp: stub_backend_def)
  have priv: "\<forall>h u. respond (stub_backend True creates (\<lambda>p. False)) h
                (Execute u HasSchemaPrivilege []) = Returned (creates u)"
    for creates
    by (simp add: stub_backend_def)
  have a: "fst (is_read_only_database
          (stub_backend True (\<lambda>u. u = Str ''postgres://c:p@main/ckan'') (\<lambda>p. False))
          example_full empty_world) = Inr False"
    using is_read_only_iff_no_create [OF h conn priv, where w = empty_world] by simp
  have b: "fst (is_read_only_database (stub_backend True (\<lambda>u. False) (\<lambda>p. False))
          example_full empty_world) = Inr True"
    using is_read_only_iff_no_create [OF h conn priv, where w = empty_world] by simp
  from a b show ?thesis by simp
qed

subsection \<open>What each operation leaves unchanged\<close>

lemma statements_append: "statements (a @ b) = statements a @ statements b"
  by (induction a rule: statements.induct) simp_all

lemma db_call_trace: "trace (snd (db_call be c w)) = trace w @ [(c, respond be (trace w) c)]"
  by (simp add: db_call_def Let_def split: reply.splits)

lemma db_call_log: "log_records (snd (db_call be c w)) = log_records w"
  by (simp add: db_call_def Let_def split: reply.splits)

lemma db_call_actions: "actions_resource_show (snd (db_call be c w)) = actions_resource_show w"
  by (simp add: db_call_def Let_def split: reply.splits)

lemma db_call_statements:
  "statements (trace (snd (db_call be c w)))
     = statements (trace w) @ (case c of Execute url q ps \<Rightarrow> [q] | _ \<Rightarrow> [])"
  by (simp add: db_call_trace statements_append split: call.splits)

lemma is_read_only_loop_log: "log_records (snd (is_read_only_loop be us w)) = log_records w"
proof (induction us arbitrary: w)
  case Nil show ?case by simp
next
  case (Cons u us)
  have a: "log_records (snd (db_call be (Execute u HasSchemaPrivilege []) (snd (db_call be (Connect u) w)))) = log_records w"
    by (simp add: db_call_log)
  show ?case
    using a Cons.IH db_call_log [of be "Connect u" w]
    by (auto split: prod.splits sum.splits)
qed

lemma is_read_only_loop_statements:
  "set (statements (trace (snd (is_read_only_loop be us w))))
     \<subseteq> insert HasSchemaPrivilege (set (statements (trace w)))"
proof (induction us arbitrary: w)
  case Nil show ?case by auto
next
  case (Cons u us)
  let ?w1 = "snd (db_call be (Connect u) w)"
  let ?w2 = "snd (db_call be (Execute u HasSchemaPrivilege []) ?w1)"
  have s1: "statements (trace ?w1) = statements (trace w)"
    by (simp add: db_call_statements)
  have s2: "statements (trace ?w2) = statements (trace w) @ [HasSchemaPrivilege]"
    by (simp add: db_call_statements)
  have ih: "set (statements (trace (snd (is_read_only_loop be us ?w2))))
     \<subseteq> insert HasSchemaPrivilege (set (statements (trace w)))"
    using Cons.IH [of ?w2] s2 by auto
  show ?case
    using s1 s2 ih
    by (auto split: prod.splits sum.splits)
qed

lemma db_call_error: "db_call be c w = (Inl e, w') \<Longrightarrow> \<exists>m. e = DBAPIError m"
  by (auto simp: db_call_def Let_def split: reply.splits)

lemma get_db_from_url_error: "get_db_from_url u = Inl e \<Longrightarrow> e = ValueError \<or> e = AttributeError"
  by (cases u) (auto simp: rindex_def split: if_splits sum.splits)

lemma same_db_error:
  "same_ckan_and_datastore_db self = Inl e \<Longrightarrow> e = ValueError \<or> e = AttributeError"
  by (auto simp: same_ckan_and_datastore_db_def getattr_def
      simp del: get_db_from_url.simps
      split: if_splits sum.splits option.splits bool.splits dest: get_db_from_url_error)

lemma create_alias_table_error:
  "fst (create_alias_table be w) = Inl e \<Longrightarrow> e = KeyError write_url_key \<or> (\<exists>m. e = DBAPIError m)"
  by (auto simp: create_alias_table_def getitem_def
      split: option.splits prod.splits sum.splits dest: db_call_error)

lemma add_is_valid_type_function_error:
  "fst (add_is_valid_type_function be w) = Inl e \<Longrightarrow>
     e = KeyError write_url_key \<or> (\<exists>m. e = DBAPIError m)"
  by (auto simp: add_is_valid_type_function_def getitem_def
      split: option.splits prod.splits sum.splits dest: db_call_error)

lemma db_call_frame:
  "db_call be c w = (r, w') \<Longrightarrow>
     log_records w' = log_records w \<and> actions_resource_show w' = actions_resource_show w
     \<and> trace w' = trace w @ [(c, respond be (trace w) c)]"
  by (auto simp: db_call_def Let_def split: reply.splits)

lemma create_alias_table_log: "log_records (snd (create_alias_table be w)) = log_records w"
  by (auto simp: create_alias_table_def
      split: option.splits prod.splits sum.splits dest!: db_call_frame)

lemma create_alias_table_actions:
  "actions_resource_show (snd (create_alias_table be w)) = actions_resource_show w"
  by (auto simp: create_alias_table_def
      split: option.splits prod.splits sum.splits dest!: db_call_frame)

lemma create_alias_table_statements:
  "set (statements (trace (snd (create_alias_table be w))))
     \<subseteq> insert CreateAliasTable (set (statements (trace w)))"
  by (auto simp: create_alias_table_def statements_append
      split: option.splits prod.splits sum.splits dest!: db_call_frame)

lemma add_is_valid_type_function_log:
  "log_records (snd (add_is_valid_type_function be w)) = log_records w"
  by (auto simp: add_is_valid_type_function_def
      split: option.splits prod.splits sum.splits dest!: db_call_frame)

lemma add_is_valid_type_function_actions:
  "actions_resource_show (snd (add_is_valid_type_function be w)) = actions_resource_show w"
  by (auto simp: add_is_valid_type_function_def
      split: option.splits prod.splits sum.splits dest!: db_call_frame)

lemma add_is_valid_type_function_statements:
  "set (statements (trace (snd (add_is_valid_type_function be w))))
     \<subseteq> insert CreateIsValidType (set (statements (trace w)))"
  by (auto simp: add_is_valid_type_function_def statements_append
      split: option.splits prod.splits sum.splits dest!: db_call_frame)

lemma assigned_simps [simp]:
  "legacy_mode (assigned self cfg c wu ru) = (cfg read_url_key = None)"
  "ckan_url (assigned self cfg c wu ru) = Some c"
  "write_url (assigned self cfg c wu ru) = Some wu"
  "read_url (assigned self cfg c wu ru) = Some ru"
  "config (assigned self cfg c wu ru) = Some cfg"
  by (simp_all add: assigned_def)

lemma is_read_only_database_log:
  "log_records (snd (is_read_only_database be self w)) = log_records w"
  by (simp add: is_read_only_database_def is_read_only_loop_log
      del: is_read_only_loop.simps split: sum.splits)

lemma is_read_only_database_statements:
  "set (statements (trace (snd (is_read_only_database be self w))))
     \<subseteq> insert HasSchemaPrivilege (set (statements (trace w)))"
  using is_read_only_loop_statements
  by (auto simp: is_read_only_database_def simp del: is_read_only_loop.simps
      split: sum.splits)

lemma log_warn_simps [simp]:
  "trace (log_warn m w) = trace w"
  "log_records (log_warn m w) = log_records w @ [(WARN, m)]"
  "actions_resource_show (log_warn m w) = actions_resource_show w"
  "foo (log_warn m w) = foo w"
  by (simp_all add: log_warn_def)

lemma log_critical_simps [simp]:
  "trace (log_critical m w) = trace w"
  "log_records (log_critical m w) = log_records w @ [(CRITICAL, m)]"
  "actions_resource_show (log_critical m w) = actions_resource_show w"
  "foo (log_critical m w) = foo w"
  by (simp_all add: log_critical_def)

lemma wrap_resource_show_simps [simp]:
  "trace (wrap_resource_show w) = trace w"
  "log_records (wrap_resource_show w) = log_records w"
  "foo (wrap_resource_show w) = foo w"
  by (simp_all add: wrap_resource_show_def get_action_def Let_def)

lemma permission_checks_legacy:
  assumes "engine_is_pg be" and "fst (is_read_only_database be self w) = Inr False"
      and "legacy_mode self"
  shows "permission_checks be self cfg w =
     (case (if \<not> debug_set cfg then same_ckan_and_datastore_db self else Inr False) of
        Inl e \<Rightarrow> (Inl e, snd (is_read_only_database be self w))
      | Inr True \<Rightarrow> (Inl (Exception msg_same_db), snd (is_read_only_database be self w))
      | Inr False \<Rightarrow>
          create_alias_table be (log_warn msg_legacy (snd (is_read_only_database be self w))))"
proof (cases "is_read_only_database be self w")
  case (Pair r w1)
  with assms(2) have r: "r = Inr False" by simp
  show ?thesis
    using assms(1,3)
    by (simp add: permission_checks_def Pair r split: sum.splits bool.splits prod.splits)
qed

subsection \<open>\<^verbatim>\<open>configure\<close> in legacy mode\<close>

lemma configure_result:
  assumes "cfg write_url_key = Some wu" and "running_paster (argv be) = Inr False"
    and "cfg ''sqlalchemy.url'' = Some c"
    and "ru = (case cfg read_url_key of None \<Rightarrow> wu | Some r \<Rightarrow> r)"
  shows "fst (configure be self cfg w) =
     (case fst (permission_checks be (assigned self cfg c wu ru) cfg w) of
        Inl e \<Rightarrow> Inl e
      | Inr u \<Rightarrow>
          (case fst (add_is_valid_type_function be
                  (wrap_resource_show (snd (permission_checks be (assigned self cfg c wu ru) cfg w)))) of
             Inl e \<Rightarrow> Inl e
           | Inr u \<Rightarrow> Inr ()))"
proof -
  obtain r1 w1 where p: "permission_checks be (assigned self cfg c wu ru) cfg w = (r1, w1)"
    by (cases "permission_checks be (assigned self cfg c wu ru) cfg w")
  obtain r2 w2 where q: "add_is_valid_type_function be (wrap_resource_show w1) = (r2, w2)"
    by (cases "add_is_valid_type_function be (wrap_resource_show w1)")
  show ?thesis
    by (simp add: configure_assigned [OF assms] p q split: sum.splits)
qed

lemma configure_world:
  assumes "cfg write_url_key = Some wu" and "running_paster (argv be) = Inr False"
    and "cfg ''sqlalchemy.url'' = Some c"
    and "ru = (case cfg read_url_key of None \<Rightarrow> wu | Some r \<Rightarrow> r)"
  shows "snd (snd (configure be self cfg w)) =
     (case fst (permission_checks be (assigned self cfg c wu ru) cfg w) of
        Inl e \<Rightarrow> snd (permission_checks be (assigned self cfg c wu ru) cfg w)
      | Inr u \<Rightarrow>
          snd (add_is_valid_type_function be
                  (wrap_resource_show (snd (permission_checks be (assigned self cfg c wu ru) cfg w)))))"
proof -
  obtain r1 w1 where p: "permission_checks be (assigned self cfg c wu ru) cfg w = (r1, w1)"
    by (cases "permission_checks be (assigned self cfg c wu ru) cfg w")
  obtain r2 w2 where q: "add_is_valid_type_function be (wrap_resource_show w1) = (r2, w2)"
    by (cases "add_is_valid_type_function be (wrap_resource_show w1)")
  show ?thesis
    by (simp add: configure_assigned [OF assms] p q split: sum.splits)
qed

lemma permission_checks_legacy_result:
  assumes "engine_is_pg be" and "fst (is_read_only_database be self w) = Inr False"
      and "legacy_mode self"
  shows "fst (permission_checks be self cfg w) =
     (case (if \<not> debug_set cfg then same_ckan_and_datastore_db self else Inr False) of
        Inl e \<Rightarrow> Inl e
      | Inr True \<Rightarrow> Inl (Exception msg_same_db)
      | Inr False \<Rightarrow>
          fst (create_alias_table be (log_warn msg_legacy (snd (is_read_only_database be self w)))))"
  by (simp add: permission_checks_legacy [OF assms] split: sum.splits bool.splits)

lemma permission_checks_legacy_world:
  assumes "engine_is_pg be" and "fst (is_read_only_database be self w) = Inr False"
      and "legacy_mode self"
  shows "snd (permission_checks be self cfg w) =
     (case (if \<not> debug_set cfg then same_ckan_and_datastore_db self else Inr False) of
        Inr False \<Rightarrow>
          snd (create_alias_table be (log_warn msg_legacy (snd (is_read_only_database be self w))))
      | _ \<Rightarrow> snd (is_read_only_database be self w))"
  by (simp add: permission_checks_legacy [OF assms] split: sum.splits bool.splits)

text \<open>
  C2 (as amended). Legacy mode, PostgreSQL, not a read-only database: \<^verbatim>\<open>configure\<close>
  never raises the write-permissions error and sends none of the probe statements, only
  the CREATE question, the alias view and the type function. The same-database check is
  still made unless \<^verbatim>\<open>debug\<close> is set: when the primary and the write URL have the same
  database part, \<^verbatim>\<open>configure\<close> raises its error. When the check is skipped or negative,
  the only log record added is the warning that the SQL search is not available.
\<close>

theorem legacy_skips_probe_only:
  assumes cfg: "cfg write_url_key = Some wu" "cfg read_url_key = None"
               "cfg ''sqlalchemy.url'' = Some c"
      and np: "running_paster (argv be) = Inr False"
      and pg: "engine_is_pg be"
      and rw: "fst (is_read_only_database be (assigned self cfg c wu wu) w) = Inr False"
  shows "fst (configure be self cfg w) \<noteq> Inl (Exception msg_write_permissions)
       \<and> set (statements (trace (snd (snd (configure be self cfg w)))))
            \<subseteq> set (statements (trace w))
                \<union> {HasSchemaPrivilege, CreateAliasTable, CreateIsValidType}
       \<and> (\<not> debug_set cfg
            \<and> (\<exists>d. get_db_from_url c = Inr d \<and> get_db_from_url wu = Inr d) \<longrightarrow>
          fst (configure be self cfg w) = Inl (Exception msg_same_db))
       \<and> (debug_set cfg \<or> same_ckan_and_datastore_db (assigned self cfg c wu wu) = Inr False \<longrightarrow>
          log_records (snd (snd (configure be self cfg w))) = log_records w @ [(WARN, msg_legacy)])"
proof -
  let ?A = "assigned self cfg c wu wu"
  let ?w1 = "snd (is_read_only_database be ?A w)"
  let ?leak = "if \<not> debug_set cfg then same_ckan_and_datastore_db ?A else Inr False"
  let ?w2 = "log_warn msg_legacy ?w1"
  let ?w3 = "snd (create_alias_table be ?w2)"
  let ?w4 = "snd (add_is_valid_type_function be (wrap_resource_show ?w3))"
  have ru: "wu = (case cfg read_url_key of None \<Rightarrow> wu | Some r \<Rightarrow> r)"
    by (simp add: cfg)
  note cr = configure_result [OF cfg(1) np cfg(3) ru, of self w]
  note cw = configure_world [OF cfg(1) np cfg(3) ru, of self w]
  have leg: "legacy_mode ?A" by (simp add: cfg)
  note pr = permission_checks_legacy_result [OF pg rw leg, of cfg]
  note pw = permission_checks_legacy_world [OF pg rw leg, of cfg]
  have s1: "set (statements (trace ?w1)) \<subseteq> insert HasSchemaPrivilege (set (statements (trace w)))"
    by (rule is_read_only_database_statements)
  have l1: "log_records ?w1 = log_records w"
    by (rule is_read_only_database_log)
  have s3: "set (statements (trace ?w3))
      \<subseteq> set (statements (trace w)) \<union> {HasSchemaPrivilege, CreateAliasTable}"
    using create_alias_table_statements [of be ?w2] s1 by auto
  have s4: "set (statements (trace ?w4))
      \<subseteq> set (statements (trace w)) \<union> {HasSchemaPrivilege, CreateAliasTable, CreateIsValidType}"
    using add_is_valid_type_function_statements [of be "wrap_resource_show ?w3"] s3 by auto
  have l3: "log_records ?w3 = log_records w @ [(WARN, msg_legacy)]"
    by (simp add: create_alias_table_log l1)
  have l4: "log_records ?w4 = log_records w @ [(WARN, msg_legacy)]"
    by (simp add: add_is_valid_type_function_log l3)
  have leak_iff: "same_ckan_and_datastore_db ?A = Inr True
      \<longleftrightarrow> (\<exists>d. get_db_from_url c = Inr d \<and> get_db_from_url wu = Inr d)"
    using same_db_True_iff [of ?A c wu wu] leg by simp
  have e3: "fst (create_alias_table be ?w2) \<noteq> Inl (Exception m)" for m
    using create_alias_table_error [of be ?w2 "Exception m"] by auto
  have e4: "fst (add_is_valid_type_function be (wrap_resource_show ?w3)) \<noteq> Inl (Exception m)" for m
    using add_is_valid_type_function_error [of be "wrap_resource_show ?w3" "Exception m"] by auto
  consider (err) e where "?leak = Inl e" | (same) "?leak = Inr True" | (ok) "?leak = Inr False"
    by (cases ?leak) auto
  then show ?thesis
  proof cases
    case err
    then have nd: "\<not> debug_set cfg" and sd: "same_ckan_and_datastore_db ?A = Inl e"
      by (auto split: if_splits)
    from same_db_error [OF sd] have e: "e = ValueError \<or> e = AttributeError" .
    have r: "fst (configure be self cfg w) = Inl e"
      by (simp add: cr pr err)
    have w: "snd (snd (configure be self cfg w)) = ?w1"
      by (simp add: cw pr pw err)
    show ?thesis
      unfolding r w using e s1 nd sd leak_iff by auto
  next
    case same
    then have nd: "\<not> debug_set cfg" and sd: "same_ckan_and_datastore_db ?A = Inr True"
      by (auto split: if_splits)
    have r: "fst (configure be self cfg w) = Inl (Exception msg_same_db)"
      by (simp add: cr pr same)
    have w: "snd (snd (configure be self cfg w)) = ?w1"
      by (simp add: cw pr pw same)
    show ?thesis
      unfolding r w using s1 nd sd by auto
  next
    case ok
    have nl: "\<not> (\<not> debug_set cfg \<and> (\<exists>d. get_db_from_url c = Inr d \<and> get_db_from_url wu = Inr d))"
      using ok leak_iff by (auto split: if_splits)
    have r: "fst (configure be self cfg w) =
       (case fst (create_alias_table be ?w2) of
          Inl e \<Rightarrow> Inl e
        | Inr u \<Rightarrow>
          (case fst (add_is_valid_type_function be (wrap_resource_show ?w3)) of
             Inl e \<Rightarrow> Inl e
           | Inr u \<Rightarrow> Inr ()))"
      by (simp add: cr pr pw ok cong: sum.case_cong)
    have w: "snd (snd (configure be self cfg w)) =
       (case fst (create_alias_table be ?w2) of Inl e \<Rightarrow> ?w3 | Inr u \<Rightarrow> ?w4)"
      by (simp add: cw pr pw ok cong: sum.case_cong)
    have a: "fst (configure be self cfg w) \<noteq> Inl (Exception msg_write_permissions)"
      unfolding r using e3 e4 by (auto split: sum.splits)
    have b: "set (statements (trace (snd (snd (configure be self cfg w)))))
            \<subseteq> set (statements (trace w))
                \<union> {HasSchemaPrivilege, CreateAliasTable, CreateIsValidType}"
      unfolding w using s3 s4 by (auto split: sum.splits)
    have c: "log_records (snd (snd (configure be self cfg w))) = log_records w @ [(WARN, msg_legacy)]"
      unfolding w using l3 l4 by (auto split: sum.splits)
    show ?thesis
      using a b c nl by blast
  qed
qed

lemmas run_defs = configure_def permission_checks_def is_read_only_database_def
  same_ckan_and_datastore_db_def read_connection_has_correct_privileges_def probe_body_def
  create_alias_table_def add_is_valid_type_function_def wrap_resource_show_def get_action_def
  db_call_def log_warn_def log_critical_def getitem_def getattr_def running_paster_def
  last_part_def debug_set_def rindex_def Let_def assigned_def

lemmas example_defs = stub_backend_def writable_backend_def empty_world_def DatastorePlugin_def
  legacy_config_def legacy_separate_config_def

text \<open>
  In legacy mode on a writable database whose primary and write URL share the database
  part, \<^verbatim>\<open>configure\<close> raises the same-database error.
\<close>

theorem legacy_same_db_counterexample:
  "legacy_mode (fst (snd (configure writable_backend DatastorePlugin legacy_config empty_world)))
   \<and> fst (is_read_only_database writable_backend
            (fst (snd (configure writable_backend DatastorePlugin legacy_config empty_world)))
            empty_world) = Inr False
   \<and> fst (configure writable_backend DatastorePlugin legacy_config empty_world)
       = Inl (Exception msg_same_db)"
  by (simp add: run_defs example_defs)

theorem legacy_skips_probe_only_witness:
  "fst (configure writable_backend DatastorePlugin legacy_config empty_world)
       = Inl (Exception msg_same_db)
   \<and> fst (configure writable_backend DatastorePlugin legacy_separate_config empty_world)
       \<noteq> Inl (Exception msg_write_permissions)
   \<and> set (statements (trace (snd (snd (configure writable_backend DatastorePlugin
                                          legacy_separate_config empty_world)))))
        \<subseteq> {HasSchemaPrivilege, CreateAliasTable, CreateIsValidType}
   \<and> log_records (snd (snd (configure writable_backend DatastorePlugin
                               legacy_separate_config empty_world)))
       = [(WARN, msg_legacy)]"
proof -
  let ?c1 = "Str ''postgres://c:p@host/datastore''"
  let ?c2 = "Str ''postgres://c:p@main/ckan''"
  let ?wu = "Str ''postgres://w:p@host/datastore''"
  have np: "running_paster (argv writable_backend) = Inr False"
    by (simp add: writable_backend_def stub_not_paster)
  have pg: "engine_is_pg writable_backend"
    by (simp add: example_defs)
  have rw: "fst (is_read_only_database writable_backend (assigned DatastorePlugin cfg c ?wu ?wu)
              empty_world) = Inr False" for cfg c
    by (simp add: run_defs example_defs)
  have h1: "legacy_config write_url_key = Some ?wu" "legacy_config read_url_key = None"
           "legacy_config ''sqlalchemy.url'' = Some ?c1"
    by (simp_all add: legacy_config_def)
  have h2: "legacy_separate_config write_url_key = Some ?wu"
           "legacy_separate_config read_url_key = None"
           "legacy_separate_config ''sqlalchemy.url'' = Some ?c2"
    by (simp_all add: legacy_separate_config_def)
  have d1: "\<not> debug_set legacy_config
            \<and> (\<exists>d. get_db_from_url ?c1 = Inr d \<and> get_db_from_url ?wu = Inr d)"
    by (simp add: debug_set_def legacy_config_def rindex_def)
  have d2: "same_ckan_and_datastore_db (assigned DatastorePlugin legacy_separate_config ?c2 ?wu ?wu)
              = Inr False"
    by (simp add: run_defs example_defs)
  note t1 = legacy_skips_probe_only [OF h1 np pg rw]
  note t2 = legacy_skips_probe_only [OF h2 np pg rw]
  have e: "trace empty_world = []" "log_records empty_world = []"
    by (simp_all add: empty_world_def)
  from t1 d1 have a: "fst (configure writable_backend DatastorePlugin legacy_config empty_world)
       = Inl (Exception msg_same_db)"
    by blast
  from t2 d2 e have b: "fst (configure writable_backend DatastorePlugin legacy_separate_config empty_world)
       \<noteq> Inl (Exception msg_write_permissions)
   \<and> set (statements (trace (snd (snd (configure writable_backend DatastorePlugin
                                          legacy_separate_config empty_world)))))
        \<subseteq> {HasSchemaPrivilege, CreateAliasTable, CreateIsValidType}
   \<and> log_records (snd (snd (configure writable_backend DatastorePlugin
                               legacy_separate_config empty_world)))
       = [(WARN, msg_legacy)]"
    by simp
  from a b show ?thesis by simp
qed

subsection \<open>\<^verbatim>\<open>configure\<close> with \<^verbatim>\<open>debug\<close> set\<close>

lemma privilege_loop_frame:
  "privilege_loop be ru ps w = (r, w') \<Longrightarrow>
     log_records w' = log_records w \<and> actions_resource_show w' = actions_resource_show w
     \<and> (\<exists>t. trace w' = trace w @ t)
     \<and> (\<forall>e. r = Inl e \<longrightarrow> (\<exists>m. e = DBAPIError m))"
proof (induction ps arbitrary: w)
  case Nil
  then show ?case by auto
next
  case (Cons p ps)
  obtain r1 w1 where c1: "db_call be (Execute ru (HasTablePrivilege p) []) w = (r1, w1)"
    by (cases "db_call be (Execute ru (HasTablePrivilege p) []) w")
  note f1 = db_call_frame [OF c1]
  show ?case
  proof (cases r1)
    case (Inl e)
    with Cons.prems c1 f1 db_call_error [of be _ w e w1] show ?thesis by auto
  next
    case (Inr b)
    show ?thesis
    proof (cases b)
      case True
      with Cons.prems c1 f1 Inr show ?thesis by auto
    next
      case False
      with Cons.prems c1 Inr have "privilege_loop be ru ps w1 = (r, w')" by simp
      from Cons.IH [OF this] f1 show ?thesis by auto
    qed
  qed
qed

lemma probe_body_frame:
  "probe_body be wu ru w = (r, w') \<Longrightarrow>
     log_records w' = log_records w \<and> actions_resource_show w' = actions_resource_show w
     \<and> (\<exists>t. trace w' = trace w @ t)
     \<and> (\<forall>e. r = Inl e \<longrightarrow> (\<exists>m. e = DBAPIError m))"
proof -
  assume a: "probe_body be wu ru w = (r, w')"
  obtain r1 w1 where c1: "db_call be (Execute wu CreateFoo []) w = (r1, w1)"
    by (cases "db_call be (Execute wu CreateFoo []) w")
  note f1 = db_call_frame [OF c1]
  show ?thesis
  proof (cases r1)
    case (Inl e)
    with a c1 f1 db_call_error [of be _ w e w1] show ?thesis
      by (auto simp: probe_body_def)
  next
    case (Inr b)
    with a c1 have "privilege_loop be ru [INSERT, UPDATE, DELETE] w1 = (r, w')"
      by (simp add: probe_body_def)
    from privilege_loop_frame [OF this] f1 show ?thesis by auto
  qed
qed

lemma db_call_frame_error:
  "db_call be c w = (r, w') \<Longrightarrow>
     log_records w' = log_records w \<and> actions_resource_show w' = actions_resource_show w
     \<and> trace w' = trace w @ [(c, respond be (trace w) c)]
     \<and> (\<forall>e. r = Inl e \<longrightarrow> (\<exists>m. e = DBAPIError m))"
  by (auto simp: db_call_def Let_def split: reply.splits)

lemma read_connection_frame:
  assumes a: "read_connection_has_correct_privileges be self w = (r, w')"
  shows "log_records w' = log_records w \<and> actions_resource_show w' = actions_resource_show w
     \<and> (\<exists>t. trace w' = trace w @ t)
     \<and> (\<forall>e. r = Inl e \<longrightarrow> e = AttributeError \<or> (\<exists>m. e = DBAPIError m))
     \<and> (write_url self \<noteq> None \<and> read_url self \<noteq> None \<longrightarrow> r \<noteq> Inl AttributeError)"
  using a
  by (auto simp: read_connection_has_correct_privileges_def getattr_def
      split: option.splits prod.splits sum.splits
      dest!: db_call_frame_error probe_body_frame)

lemma permission_checks_debug_full:
  assumes "engine_is_pg be" and "fst (is_read_only_database be self w) = Inr False"
      and "\<not> legacy_mode self" and "debug_set cfg"
  shows "permission_checks be self cfg w =
     (case read_connection_has_correct_privileges be self (snd (is_read_only_database be self w)) of
        (Inl e, w2) \<Rightarrow> (Inl e, w2)
      | (Inr True, w2) \<Rightarrow> create_alias_table be w2
      | (Inr False, w2) \<Rightarrow> create_alias_table be (log_critical msg_write_permissions w2))"
proof (cases "is_read_only_database be self w")
  case (Pair r w1)
  with assms(2) have r: "r = Inr False" by simp
  show ?thesis
    using assms(1,3,4)
    by (simp add: permission_checks_def Pair r split: sum.splits bool.splits prod.splits)
qed

lemma create_alias_table_frame:
  "create_alias_table be w = (r, w') \<Longrightarrow>
     log_records w' = log_records w \<and> actions_resource_show w' = actions_resource_show w
     \<and> (\<exists>t. trace w' = trace w @ t)"
  by (auto simp: create_alias_table_def
      split: option.splits prod.splits sum.splits dest!: db_call_frame)

lemma add_is_valid_type_function_frame:
  "add_is_valid_type_function be w = (r, w') \<Longrightarrow>
     log_records w' = log_records w \<and> actions_resource_show w' = actions_resource_show w
     \<and> (\<exists>t. trace w' = trace w @ t)"
  by (auto simp: add_is_valid_type_function_def
      split: option.splits prod.splits sum.splits dest!: db_call_frame)

lemma bootstrap_extends:
  "\<exists>t. trace (case fst (create_alias_table be w) of
                 Inl e \<Rightarrow> snd (create_alias_table be w)
               | Inr u \<Rightarrow> snd (add_is_valid_type_function be
                               (wrap_resource_show (snd (create_alias_table be w)))))
        = trace w @ t"
proof -
  obtain r1 w1 where a: "create_alias_table be w = (r1, w1)"
    by (cases "create_alias_table be w")
  obtain r2 w2 where b: "add_is_valid_type_function be (wrap_resource_show w1) = (r2, w2)"
    by (cases "add_is_valid_type_function be (wrap_resource_show w1)")
  from create_alias_table_frame [OF a] obtain t1 where t1: "trace w1 = trace w @ t1" by auto
  from add_is_valid_type_function_frame [OF b] obtain t2 where t2: "trace w2 = trace w1 @ t2"
    by auto
  show ?thesis
    using t1 t2 by (auto simp: a b split: sum.splits)
qed

lemma bootstrap_log:
  "log_records (case fst (create_alias_table be w) of
                 Inl e \<Rightarrow> snd (create_alias_table be w)
               | Inr u \<Rightarrow> snd (add_is_valid_type_function be
                               (wrap_resource_show (snd (create_alias_table be w)))))
        = log_records w"
  by (simp add: create_alias_table_log add_is_valid_type_function_log split: sum.splits)

lemma bootstrap_error:
  "(case fst (create_alias_table be w) of
      Inl e \<Rightarrow> Inl e
    | Inr u \<Rightarrow> (case fst (add_is_valid_type_function be
                               (wrap_resource_show (snd (create_alias_table be w)))) of
                  Inl e \<Rightarrow> Inl e | Inr u \<Rightarrow> Inr ())) = Inl e
   \<Longrightarrow> e = KeyError write_url_key \<or> (\<exists>m. e = DBAPIError m)"
  by (auto split: sum.splits dest: create_alias_table_error add_is_valid_type_function_error)

lemma bootstrap_fst:
  "fst (bootstrap be w) =
     (case fst (create_alias_table be w) of
        Inl e \<Rightarrow> Inl e
      | Inr u \<Rightarrow> (case fst (add_is_valid_type_function be
                               (wrap_resource_show (snd (create_alias_table be w)))) of
                    Inl e \<Rightarrow> Inl e | Inr u \<Rightarrow> Inr ()))"
proof -
  obtain r1 w1 where a: "create_alias_table be w = (r1, w1)"
    by (cases "create_alias_table be w")
  obtain r2 w2 where b: "add_is_valid_type_function be (wrap_resource_show w1) = (r2, w2)"
    by (cases "add_is_valid_type_function be (wrap_resource_show w1)")
  show ?thesis
    by (simp add: bootstrap_def a b split: sum.splits)
qed

lemma bootstrap_snd:
  "snd (bootstrap be w) =
     (case fst (create_alias_table be w) of
        Inl e \<Rightarrow> snd (create_alias_table be w)
      | Inr u \<Rightarrow> snd (add_is_valid_type_function be
                        (wrap_resource_show (snd (create_alias_table be w)))))"
proof -
  obtain r1 w1 where a: "create_alias_table be w = (r1, w1)"
    by (cases "create_alias_table be w")
  show ?thesis
    by (simp add: bootstrap_def a split: sum.splits)
qed

lemma permission_checks_debug_full_fst:
  assumes "engine_is_pg be" and "fst (is_read_only_database be self w) = Inr False"
      and "\<not> legacy_mode self" and "debug_set cfg"
  shows "fst (permission_checks be self cfg w) =
     (case fst (read_connection_has_correct_privileges be self
                  (snd (is_read_only_database be self w))) of
        Inl e \<Rightarrow> Inl e
      | Inr True \<Rightarrow>
          fst (create_alias_table be
                 (snd (read_connection_has_correct_privileges be self
                         (snd (is_read_only_database be self w)))))
      | Inr False \<Rightarrow>
          fst (create_alias_table be
                 (log_critical msg_write_permissions
                    (snd (read_connection_has_correct_privileges be self
                            (snd (is_read_only_database be self w)))))))"
proof -
  obtain r w2 where p: "read_connection_has_correct_privileges be self
                  (snd (is_read_only_database be self w)) = (r, w2)"
    by (cases "read_connection_has_correct_privileges be self
                  (snd (is_read_only_database be self w))")
  show ?thesis
    by (simp add: permission_checks_debug_full [OF assms] p split: sum.splits bool.splits)
qed

lemma permission_checks_debug_full_snd:
  assumes "engine_is_pg be" and "fst (is_read_only_database be self w) = Inr False"
      and "\<not> legacy_mode self" and "debug_set cfg"
  shows "snd (permission_checks be self cfg w) =
     (case fst (read_connection_has_correct_privileges be self
                  (snd (is_read_only_database be self w))) of
        Inl e \<Rightarrow> snd (read_connection_has_correct_privileges be self
                         (snd (is_read_only_database be self w)))
      | Inr True \<Rightarrow>
          snd (create_alias_table be
                 (snd (read_connection_has_correct_privileges be self
                         (snd (is_read_only_database be self w)))))
      | Inr False \<Rightarrow>
          snd (create_alias_table be
                 (log_critical msg_write_permissions
                    (snd (read_connection_has_correct_privileges be self
                            (snd (is_read_only_database be self w)))))))"
proof -
  obtain r w2 where p: "read_connection_has_correct_privileges be self
                  (snd (is_read_only_database be self w)) = (r, w2)"
    by (cases "read_connection_has_correct_privileges be self
                  (snd (is_read_only_database be self w))")
  show ?thesis
    by (simp add: permission_checks_debug_full [OF assms] p split: sum.splits bool.splits)
qed

lemma read_connection_first_call:
  assumes "write_url self = Some wu"
  shows "\<exists>t. trace (snd (read_connection_has_correct_privileges be self w))
           = trace w @ (Connect wu, respond be (trace w) (Connect wu)) # t"
proof -
  obtain r w' where p: "read_connection_has_correct_privileges be self w = (r, w')"
    by (cases "read_connection_has_correct_privileges be self w")
  show ?thesis
    using p assms
    by (auto simp: read_connection_has_correct_privileges_def getattr_def
      split: option.splits prod.splits sum.splits
      dest!: db_call_frame_error probe_body_frame)
qed

text \<open>
  C3. Full mode, PostgreSQL, not a read-only database, \<^verbatim>\<open>debug\<close> set. The same-database
  check is not made: \<^verbatim>\<open>configure\<close> raises neither its error nor the errors of the
  extraction, whatever the URLs are. The privilege probe is made: its calls, starting with
  the connection to the write URL, are in the trace. When the probe returns False,
  \<^verbatim>\<open>configure\<close> logs the critical record, does not raise the write-permissions error,
  and goes on with the alias view, the wrapping and the type function.
\<close>

theorem debug_relaxes_asymmetrically:
  assumes cfg: "cfg write_url_key = Some wu" "cfg read_url_key = Some ru"
               "cfg ''sqlalchemy.url'' = Some c"
      and np: "running_paster (argv be) = Inr False"
      and pg: "engine_is_pg be"
      and dbg: "debug_set cfg"
      and A: "A = assigned self cfg c wu ru"
      and rw: "fst (is_read_only_database be A w) = Inr False"
      and P: "P = read_connection_has_correct_privileges be A (snd (is_read_only_database be A w))"
      and R: "R = configure be self cfg w"
  shows "fst R \<noteq> Inl (Exception msg_same_db) \<and> fst R \<noteq> Inl ValueError
         \<and> fst R \<noteq> Inl AttributeError
       \<and> (\<exists>t. trace (snd P) = trace (snd (is_read_only_database be A w))
                                  @ (Connect wu, respond be (trace (snd (is_read_only_database be A w)))
                                                   (Connect wu)) # t)
       \<and> (\<exists>t. trace (snd (snd R)) = trace (snd P) @ t)
       \<and> (fst P = Inr False \<longrightarrow>
            fst R = fst (bootstrap be (log_critical msg_write_permissions (snd P)))
          \<and> snd (snd R) = snd (bootstrap be (log_critical msg_write_permissions (snd P)))
          \<and> log_records (snd (snd R)) = log_records w @ [(CRITICAL, msg_write_permissions)]
          \<and> fst R \<noteq> Inl (Exception msg_write_permissions))"
proof -
  let ?w1 = "snd (is_read_only_database be A w)"
  have ru: "ru = (case cfg read_url_key of None \<Rightarrow> wu | Some r \<Rightarrow> r)"
    by (simp add: cfg)
  have full: "\<not> legacy_mode A" by (simp add: A cfg)
  have wA: "write_url A = Some wu" "read_url A = Some ru" by (simp_all add: A)
  note cr = configure_result [OF cfg(1) np cfg(3) ru, of self w, folded A R]
  note cw = configure_world [OF cfg(1) np cfg(3) ru, of self w, folded A R]
  note pf = permission_checks_debug_full_fst [OF pg rw full dbg, folded P]
  note ps = permission_checks_debug_full_snd [OF pg rw full dbg, folded P]
  obtain rp wp where Pp: "read_connection_has_correct_privileges be A ?w1 = (rp, wp)"
    by (cases "read_connection_has_correct_privileges be A ?w1")
  note fr = read_connection_frame [OF Pp]
  have P': "fst P = rp" "snd P = wp" by (simp_all add: P Pp)
  have perr: "fst P = Inl e \<Longrightarrow> \<exists>m. e = DBAPIError m" for e
    using fr wA P' by auto
  have plog: "log_records (snd P) = log_records w"
    using fr P' by (simp add: is_read_only_database_log)
  have first: "\<exists>t. trace (snd P) = trace ?w1 @ (Connect wu, respond be (trace ?w1) (Connect wu)) # t"
    unfolding P by (rule read_connection_first_call [OF wA(1)])
  have res: "fst R =
     (case fst P of
        Inl e \<Rightarrow> Inl e
      | Inr True \<Rightarrow> fst (bootstrap be (snd P))
      | Inr False \<Rightarrow> fst (bootstrap be (log_critical msg_write_permissions (snd P))))"
    by (simp add: cr pf ps bootstrap_fst split: sum.splits bool.splits)
  have wld: "snd (snd R) =
     (case fst P of
        Inl e \<Rightarrow> snd P
      | Inr True \<Rightarrow> snd (bootstrap be (snd P))
      | Inr False \<Rightarrow> snd (bootstrap be (log_critical msg_write_permissions (snd P))))"
    by (simp add: cw pf ps bootstrap_snd split: sum.splits bool.splits)
  have berr: "fst (bootstrap be v) = Inl e \<Longrightarrow> e = KeyError write_url_key \<or> (\<exists>m. e = DBAPIError m)"
    for v e
    unfolding bootstrap_fst by (rule bootstrap_error)
  have bext: "\<exists>t. trace (snd (bootstrap be v)) = trace v @ t" for v
    unfolding bootstrap_snd by (rule bootstrap_extends)
  have blog: "log_records (snd (bootstrap be v)) = log_records v" for v
    unfolding bootstrap_snd by (rule bootstrap_log)
  have a: "fst R \<noteq> Inl (Exception m) \<and> fst R \<noteq> Inl ValueError \<and> fst R \<noteq> Inl AttributeError" for m
    unfolding res using perr berr by (fastforce split: sum.splits bool.splits)
  have b: "\<exists>t. trace (snd (snd R)) = trace (snd P) @ t"
    unfolding wld using bext [of "snd P"] bext [of "log_critical msg_write_permissions (snd P)"]
    by (auto split: sum.splits bool.splits)
  have c: "fst P = Inr False \<Longrightarrow>
      log_records (snd (snd R)) = log_records w @ [(CRITICAL, msg_write_permissions)]"
    by (simp add: wld blog plog)
  have d: "fst P = Inr False \<Longrightarrow>
      fst R = fst (bootstrap be (log_critical msg_write_permissions (snd P)))"
    by (simp add: res)
  have e: "fst P = Inr False \<Longrightarrow>
      snd (snd R) = snd (bootstrap be (log_critical msg_write_permissions (snd P)))"
    by (simp add: wld)
  show ?thesis
    using a [of msg_same_db] a [of msg_write_permissions] first b c d e by blast
qed

theorem debug_relaxes_asymmetrically_witness:
  "same_ckan_and_datastore_db
      (assigned DatastorePlugin debug_same_db_config (Str ''postgres://c:p@host/datastore'')
         (Str ''postgres://w:p@host/datastore'') (Str ''postgres://r:p@host/datastore'')) = Inr True
   \<and> fst (configure leaky_backend DatastorePlugin debug_same_db_config empty_world) = Inr ()
   \<and> log_records (snd (snd (configure leaky_backend DatastorePlugin debug_same_db_config
                               empty_world)))
       = [(CRITICAL, msg_write_permissions)]
   \<and> statements (trace (snd (snd (configure leaky_backend DatastorePlugin debug_same_db_config
                                     empty_world))))
       = [HasSchemaPrivilege, DropIfExistsFoo, CreateFoo, HasTablePrivilege INSERT,
          HasTablePrivilege UPDATE, DropFoo, CreateAliasTable, CreateIsValidType]"
proof -
  let ?c = "Str ''postgres://c:p@host/datastore''"
  let ?wu = "Str ''postgres://w:p@host/datastore''"
  let ?ru = "Str ''postgres://r:p@host/datastore''"
  let ?A = "assigned DatastorePlugin debug_same_db_config ?c ?wu ?ru"
  let ?w1 = "snd (is_read_only_database leaky_backend ?A empty_world)"
  let ?P = "read_connection_has_correct_privileges leaky_backend ?A ?w1"
  let ?R = "configure leaky_backend DatastorePlugin debug_same_db_config empty_world"
  have h: "debug_same_db_config write_url_key = Some ?wu"
          "debug_same_db_config read_url_key = Some ?ru"
          "debug_same_db_config ''sqlalchemy.url'' = Some ?c"
    by (simp_all add: debug_same_db_config_def)
  have np: "running_paster (argv leaky_backend) = Inr False"
    by (simp add: leaky_backend_def stub_not_paster)
  have pg: "engine_is_pg leaky_backend"
    by (simp add: leaky_backend_def stub_backend_def)
  have dbg: "debug_set debug_same_db_config"
    by (simp add: debug_set_def debug_same_db_config_def)
  have rw: "fst (is_read_only_database leaky_backend ?A empty_world) = Inr False"
    by (simp add: run_defs example_defs leaky_backend_def)
  have p: "fst ?P = Inr False"
    by (simp add: run_defs example_defs leaky_backend_def)
  note t = debug_relaxes_asymmetrically [OF h np pg dbg refl rw refl refl]
  from t p have l: "log_records (snd (snd ?R)) = log_records empty_world @ [(CRITICAL, msg_write_permissions)]"
    by blast
  have e: "log_records empty_world = []" by (simp add: empty_world_def)
  have s: "same_ckan_and_datastore_db ?A = Inr True"
    by (simp add: run_defs debug_same_db_config_def DatastorePlugin_def)
  have r: "fst ?R = Inr ()"
    by (simp add: run_defs example_defs leaky_backend_def debug_same_db_config_def)
  have st: "statements (trace (snd (snd ?R)))
       = [HasSchemaPrivilege, DropIfExistsFoo, CreateFoo, HasTablePrivilege INSERT,
          HasTablePrivilege UPDATE, DropFoo, CreateAliasTable, CreateIsValidType]"
    by (simp add: run_defs example_defs leaky_backend_def debug_same_db_config_def)
  from s r l e st show ?thesis by simp
qed

subsection \<open>URLs without \<open>@\<close>\<close>

lemma permission_checks_leak_error:
  assumes "engine_is_pg be" and "fst (is_read_only_database be self w) = Inr False"
      and "\<not> debug_set cfg" and "same_ckan_and_datastore_db self = Inl e"
  shows "fst (permission_checks be self cfg w) = Inl e"
proof (cases "is_read_only_database be self w")
  case (Pair r w1)
  with assms(2) have r: "r = Inr False" by simp
  show ?thesis
    using assms(1,3,4)
    by (simp add: permission_checks_def Pair r)
qed

lemma same_db_no_at:
  assumes "ckan_url self = Some (Str c)" and "write_url self = Some wu"
      and "read_url self = Some (Str r)"
      and "CHR ''@'' \<notin> set c \<or> CHR ''@'' \<notin> set r"
      and "legacy_mode self \<or> wu \<noteq> Str r"
  shows "same_ckan_and_datastore_db self = Inl ValueError"
proof -
  have c: "get_db_from_url (Str c) = Inl ValueError \<or> (\<exists>d. get_db_from_url (Str c) = Inr d)"
    by (simp add: rindex_def)
  have r: "CHR ''@'' \<notin> set c \<Longrightarrow> get_db_from_url (Str c) = Inl ValueError"
          "CHR ''@'' \<notin> set r \<Longrightarrow> get_db_from_url (Str r) = Inl ValueError"
    by (simp_all add: rindex_none)
  show ?thesis
    using assms c r
    by (auto simp: same_ckan_and_datastore_db_def getattr_def
        simp del: get_db_from_url.simps split: sum.splits bool.splits)
qed

lemma is_read_only_loop_error:
  "is_read_only_loop be us w = (Inl e, w') \<Longrightarrow> \<exists>m. e = DBAPIError m"
proof (induction us arbitrary: w)
  case Nil
  then show ?case by simp
next
  case (Cons u us)
  obtain r1 w1 where c1: "db_call be (Connect u) w = (r1, w1)"
    by (cases "db_call be (Connect u) w")
  obtain r2 w2 where c2: "db_call be (Execute u HasSchemaPrivilege []) w1 = (r2, w2)"
    by (cases "db_call be (Execute u HasSchemaPrivilege []) w1")
  show ?case
  proof (cases r1)
    case (Inl e1)
    with Cons.prems c1 db_call_error [of be "Connect u" w e1 w1] show ?thesis by auto
  next
    case (Inr b1)
    show ?thesis
    proof (cases r2)
      case (Inl e2)
      with Cons.prems c1 c2 \<open>r1 = Inr b1\<close>
        db_call_error [of be "Execute u HasSchemaPrivilege []" w1 e2 w2]
      show ?thesis by auto
    next
      case (Inr b2)
      with Cons.prems c1 c2 \<open>r1 = Inr b1\<close> Cons.IH [of w2] show ?thesis
        by (cases b2) auto
    qed
  qed
qed

lemma is_read_only_database_error:
  "fst (is_read_only_database be self w) = Inl e \<Longrightarrow>
     e = AttributeError \<or> (\<exists>m. e = DBAPIError m)"
proof -
  assume a: "fst (is_read_only_database be self w) = Inl e"
  obtain r w' where p: "is_read_only_database be self w = (r, w')"
    by (cases "is_read_only_database be self w")
  with a have r: "r = Inl e" by simp
  show ?thesis
    using p r is_read_only_loop_error [of be _ w e w']
    by (auto simp: is_read_only_database_def getattr_def simp del: is_read_only_loop.simps
        split: option.splits)
qed

lemma running_paster_error: "running_paster av = Inl e \<Longrightarrow> e = IndexError"
  by (auto simp: running_paster_def split: list.splits)

lemma permission_checks_ValueError:
  "fst (permission_checks be A cfg w) = Inl ValueError \<longleftrightarrow>
     engine_is_pg be \<and> fst (is_read_only_database be A w) = Inr False
     \<and> \<not> debug_set cfg \<and> same_ckan_and_datastore_db A = Inl ValueError"
proof
  assume "engine_is_pg be \<and> fst (is_read_only_database be A w) = Inr False
     \<and> \<not> debug_set cfg \<and> same_ckan_and_datastore_db A = Inl ValueError"
  then show "fst (permission_checks be A cfg w) = Inl ValueError"
    by (simp add: permission_checks_leak_error)
next
  assume v: "fst (permission_checks be A cfg w) = Inl ValueError"
  obtain r1 w1 where p1: "is_read_only_database be A w = (r1, w1)"
    by (cases "is_read_only_database be A w")
  obtain rp wp where pp: "read_connection_has_correct_privileges be A w1 = (rp, wp)"
    by (cases "read_connection_has_correct_privileges be A w1")
  have ca: "fst (create_alias_table be v') \<noteq> Inl ValueError" for v'
    using create_alias_table_error [of be v' ValueError] by auto
  have pe: "rp \<noteq> Inl ValueError"
    using read_connection_frame [OF pp] by auto
  have re: "r1 \<noteq> Inl ValueError"
    using is_read_only_database_error [of be A w ValueError] by (auto simp: p1)
  let ?leak = "if \<not> debug_set cfg then same_ckan_and_datastore_db A else Inr False"
  show "engine_is_pg be \<and> fst (is_read_only_database be A w) = Inr False
     \<and> \<not> debug_set cfg \<and> same_ckan_and_datastore_db A = Inl ValueError"
  proof (cases "engine_is_pg be")
    case False
    with v show ?thesis by (simp add: permission_checks_def)
  next
    case pg: True
    show ?thesis
    proof (cases r1)
      case (Inl e)
      with pg v re show ?thesis by (simp add: permission_checks_def p1)
    next
      case (Inr b1)
      show ?thesis
      proof (cases b1)
        case True
        with pg Inr v show ?thesis by (simp add: permission_checks_def p1)
      next
        case False
        note ro = Inr False
        show ?thesis
        proof (cases ?leak)
          case (Inl e)
          with pg ro v have "e = ValueError" by (simp add: permission_checks_def p1)
          with Inl pg ro p1 show ?thesis by (auto split: if_splits)
        next
          case (Inr same)
          show ?thesis
          proof (cases same)
            case True
            with pg ro Inr v show ?thesis by (simp add: permission_checks_def p1)
          next
            case False
            with Inr have lk: "?leak = Inr False" by simp
            show ?thesis
            proof (cases "legacy_mode A")
              case True
              with pg ro lk v ca show ?thesis
                by (simp add: permission_checks_def p1)
            next
              case nl: False
              show ?thesis
              proof (cases rp)
                case (Inl e)
                with pg ro lk nl v pe show ?thesis
                  by (simp add: permission_checks_def p1 pp)
              next
                case (Inr ok)
                with pg ro lk nl v ca show ?thesis
                  by (cases ok; cases "debug_set cfg") (simp_all add: permission_checks_def p1 pp)
              qed
            qed
          qed
        qed
      qed
    qed
  qed
qed

lemma get_db_from_url_ValueError:
  "get_db_from_url (Str url) = Inl ValueError \<longleftrightarrow> CHR ''@'' \<notin> set url"
  by (simp add: rindex_def)

lemma same_db_ValueError:
  assumes "ckan_url s = Some (Str c)" and "write_url s = Some wu" and "read_url s = Some (Str r)"
  shows "same_ckan_and_datastore_db s = Inl ValueError
           \<longleftrightarrow> (CHR ''@'' \<notin> set c \<or> CHR ''@'' \<notin> set r) \<and> (legacy_mode s \<or> wu \<noteq> Str r)"
proof
  assume "(CHR ''@'' \<notin> set c \<or> CHR ''@'' \<notin> set r) \<and> (legacy_mode s \<or> wu \<noteq> Str r)"
  then show "same_ckan_and_datastore_db s = Inl ValueError"
    using same_db_no_at [OF assms] by blast
next
  assume v: "same_ckan_and_datastore_db s = Inl ValueError"
  have c: "CHR ''@'' \<in> set c \<Longrightarrow> \<exists>d. get_db_from_url (Str c) = Inr d"
    by (simp add: rindex_def)
  have r: "CHR ''@'' \<in> set r \<Longrightarrow> \<exists>d. get_db_from_url (Str r) = Inr d"
    by (simp add: rindex_def)
  show "(CHR ''@'' \<notin> set c \<or> CHR ''@'' \<notin> set r) \<and> (legacy_mode s \<or> wu \<noteq> Str r)"
    using v assms c r
    by (auto simp: same_ckan_and_datastore_db_def getattr_def
        simp del: get_db_from_url.simps split: sum.splits bool.splits if_splits)
qed

lemma configure_ValueError:
  "fst (configure be self cfg w) = Inl ValueError \<longleftrightarrow>
     (\<exists>wu c. cfg write_url_key = Some wu \<and> cfg ''sqlalchemy.url'' = Some c
        \<and> running_paster (argv be) = Inr False \<and> engine_is_pg be \<and> \<not> debug_set cfg
        \<and> fst (is_read_only_database be
                 (assigned self cfg c wu (case cfg read_url_key of None \<Rightarrow> wu | Some x \<Rightarrow> x))
                 w) = Inr False
        \<and> same_ckan_and_datastore_db
             (assigned self cfg c wu (case cfg read_url_key of None \<Rightarrow> wu | Some x \<Rightarrow> x))
            = Inl ValueError)"
  (is "?L \<longleftrightarrow> ?R")
proof
  assume ?R
  then obtain wu c where h: "cfg write_url_key = Some wu" "cfg ''sqlalchemy.url'' = Some c"
      "running_paster (argv be) = Inr False"
      "fst (permission_checks be
              (assigned self cfg c wu (case cfg read_url_key of None \<Rightarrow> wu | Some x \<Rightarrow> x))
              cfg w) = Inl ValueError"
    using permission_checks_ValueError by blast
  show ?L
    by (simp add: configure_result [OF h(1) h(3) h(2) refl] h(4))
next
  assume l: ?L
  show ?R
  proof (cases "cfg write_url_key")
    case None
    with l show ?thesis by (simp add: configure_def Let_def)
  next
    case (Some wu)
    show ?thesis
    proof (cases "running_paster (argv be)")
      case (Inl e)
      with Some l running_paster_error [OF Inl] show ?thesis
        by (simp add: configure_def Let_def)
    next
      case (Inr paster)
      show ?thesis
      proof (cases paster)
        case True
        with Some Inr l show ?thesis by (simp add: configure_def Let_def)
      next
        case False
        with Inr have np: "running_paster (argv be) = Inr False" by simp
        show ?thesis
        proof (cases "cfg ''sqlalchemy.url''")
          case None
          with Some np l show ?thesis by (simp add: configure_def Let_def getitem_def)
        next
          case c: (Some c)
          let ?A = "assigned self cfg c wu (case cfg read_url_key of None \<Rightarrow> wu | Some x \<Rightarrow> x)"
          have av: "fst (add_is_valid_type_function be v) \<noteq> Inl ValueError" for v
            using add_is_valid_type_function_error [of be v ValueError] by auto
          from l have "fst (permission_checks be ?A cfg w) = Inl ValueError"
            using av
            by (auto simp: configure_result [OF Some np c refl] split: sum.splits)
          then show ?thesis
            using Some c np permission_checks_ValueError by blast
        qed
      qed
    qed
  qed
qed

text \<open>
  C10 (as amended). The extraction raises ValueError exactly for the URL strings
  without \<open>@\<close>. With string URLs assigned, \<^verbatim>\<open>_same_ckan_and_datastore_db\<close> raises it
  exactly when the primary or the read URL has no \<open>@\<close> and the mode is not Full with
  equal write and read URLs. \<^verbatim>\<open>configure\<close> ends with ValueError exactly when it gets to
  the check and the check raises it: the write and the primary URL are configured, the
  process is not a paster datastore command, the engine is PostgreSQL, \<^verbatim>\<open>debug\<close> is not
  set and the database is not read-only.
\<close>

theorem extraction_without_at:
  "(get_db_from_url (Str url) = Inl ValueError \<longleftrightarrow> CHR ''@'' \<notin> set url)
   \<and> (ckan_url s = Some (Str c) \<and> write_url s = Some wu \<and> read_url s = Some (Str r) \<longrightarrow>
        (same_ckan_and_datastore_db s = Inl ValueError
           \<longleftrightarrow> (CHR ''@'' \<notin> set c \<or> CHR ''@'' \<notin> set r) \<and> (legacy_mode s \<or> wu \<noteq> Str r)))
   \<and> (fst (configure be self cfg w) = Inl ValueError \<longleftrightarrow>
        (\<exists>wu c. cfg write_url_key = Some wu \<and> cfg ''sqlalchemy.url'' = Some c
           \<and> running_paster (argv be) = Inr False \<and> engine_is_pg be \<and> \<not> debug_set cfg
           \<and> fst (is_read_only_database be
                    (assigned self cfg c wu (case cfg read_url_key of None \<Rightarrow> wu | Some x \<Rightarrow> x))
                    w) = Inr False
           \<and> same_ckan_and_datastore_db
                (assigned self cfg c wu (case cfg read_url_key of None \<Rightarrow> wu | Some x \<Rightarrow> x))
               = Inl ValueError))"
  using get_db_from_url_ValueError [of url] same_db_ValueError [of s c wu r]
    configure_ValueError [of be self cfg w]
  by blast

theorem extraction_without_at_witness:
  "get_db_from_url (Str ''postgres://host/datastore_ro'') = Inl ValueError
   \<and> same_ckan_and_datastore_db
        (assigned DatastorePlugin no_at_config (Str ''postgres://main/ckan'')
           (Str ''postgres://host/datastore'') (Str ''postgres://host/datastore_ro''))
       = Inl ValueError
   \<and> fst (configure writable_backend DatastorePlugin no_at_config empty_world) = Inl ValueError
   \<and> fst (configure other_engine_backend DatastorePlugin no_at_config empty_world)
       \<noteq> Inl ValueError"
proof -
  let ?c = "Str ''postgres://main/ckan''"
  let ?wu = "Str ''postgres://host/datastore''"
  let ?ru = "Str ''postgres://host/datastore_ro''"
  let ?A = "assigned DatastorePlugin no_at_config ?c ?wu ?ru"
  note t = extraction_without_at [of "''postgres://host/datastore_ro''" ?A
      "''postgres://main/ckan''" ?wu "''postgres://host/datastore_ro''" _ DatastorePlugin
      no_at_config empty_world]
  have a: "get_db_from_url ?ru = Inl ValueError"
    using t [of writable_backend] by simp
  have b: "same_ckan_and_datastore_db ?A = Inl ValueError"
    using t [of writable_backend] by (simp add: no_at_config_def)
  have h: "no_at_config write_url_key = Some ?wu \<and> no_at_config ''sqlalchemy.url'' = Some ?c
      \<and> (case no_at_config read_url_key of None \<Rightarrow> ?wu | Some x \<Rightarrow> x) = ?ru
      \<and> \<not> debug_set no_at_config"
    by (simp add: no_at_config_def debug_set_def)
  have g: "running_paster (argv writable_backend) = Inr False \<and> engine_is_pg writable_backend
      \<and> fst (is_read_only_database writable_backend ?A empty_world) = Inr False"
    by (simp add: run_defs example_defs)
  have c: "fst (configure writable_backend DatastorePlugin no_at_config empty_world)
             = Inl ValueError"
    using t [of writable_backend] h g b by auto
  have e: "\<not> engine_is_pg other_engine_backend"
    by (simp add: other_engine_backend_def stub_backend_def)
  have d: "fst (configure other_engine_backend DatastorePlugin no_at_config empty_world)
             \<noteq> Inl ValueError"
    using t [of other_engine_backend] e by blast
  from a b c d show ?thesis by simp
qed

text \<open>
  Two runs with URLs without \<open>@\<close> and no exception from the extraction: in Full mode
  with equal write and read URLs the check returns True, and with \<^verbatim>\<open>debug\<close> set
  \<^verbatim>\<open>configure\<close> returns normally.
\<close>

theorem extraction_without_at_counterexample:
  "CHR ''@'' \<notin> set ''postgres://host/datastore''
   \<and> same_ckan_and_datastore_db no_at_full = Inr True
   \<and> CHR ''@'' \<notin> set ''postgres://main/ckan''
   \<and> fst (configure writable_backend DatastorePlugin debug_no_at_config empty_world) = Inr ()"
  by (simp add: run_defs example_defs no_at_full_def debug_no_at_config_def)

subsection \<open>The probe table\<close>

text \<open>
  C4 (as amended). Once \<^verbatim>\<open>_read_connection_has_correct_privileges\<close> is in its
  \<^verbatim>\<open>try\<close> block (both connections and the first DROP went through), the last call it
  makes is \<^verbatim>\<open>DROP TABLE _foo\<close> on the write connection, whatever the creation and the
  privilege queries did. When the database carries the DROP out, the probe table is gone
  and the call gives the outcome of the block; when the DROP raises, the call gives that
  exception instead and the table is as the block left it.
\<close>

theorem probe_cleanup:
  assumes urls: "write_url self = Some wu" "read_url self = Some ru"
      and c1: "db_call be (Connect wu) w = (Inr b1, w1)"
      and c2: "db_call be (Execute wu DropIfExistsFoo [Str ''CREATE TABLE public._foo ()'']) w1
                 = (Inr b2, w2)"
      and c3: "db_call be (Connect ru) w2 = (Inr b3, w3)"
      and body: "probe_body be wu ru w3 = (outcome, w4)"
      and R: "R = read_connection_has_correct_privileges be self w"
  shows "trace (snd R)
           = trace w4 @ [(Execute wu DropFoo [], respond be (trace w4) (Execute wu DropFoo []))]
       \<and> (\<forall>b. respond be (trace w4) (Execute wu DropFoo []) = Returned b \<longrightarrow>
             fst R = outcome \<and> \<not> foo (snd R))
       \<and> (\<forall>m. respond be (trace w4) (Execute wu DropFoo []) = Failed m \<longrightarrow>
             fst R = Inl (DBAPIError m) \<and> foo (snd R) = foo w4)"
proof -
  have r: "R = (case db_call be (Execute wu DropFoo []) w4 of
                  (Inl e, w5) \<Rightarrow> (Inl e, w5)
                | (Inr u, w5) \<Rightarrow> (outcome, w5))"
    by (simp add: R read_connection_has_correct_privileges_def getattr_def urls c1 c2 c3 body)
  show ?thesis
    by (cases "respond be (trace w4) (Execute wu DropFoo [])")
       (simp_all add: r db_call_def Let_def)
qed

theorem probe_cleanup_witness:
  "fst (read_connection_has_correct_privileges (failing_backend CreateFoo) example_roles
          empty_world) = Inl (DBAPIError ''refused'')
   \<and> \<not> foo (snd (read_connection_has_correct_privileges (failing_backend CreateFoo)
                     example_roles empty_world))
   \<and> statements (trace (snd (read_connection_has_correct_privileges (failing_backend CreateFoo)
                               example_roles empty_world)))
       = [DropIfExistsFoo, CreateFoo, DropFoo]
   \<and> fst (read_connection_has_correct_privileges (failing_backend (HasTablePrivilege INSERT))
          example_roles empty_world) = Inl (DBAPIError ''refused'')
   \<and> statements (trace (snd (read_connection_has_correct_privileges
                               (failing_backend (HasTablePrivilege INSERT))
                               example_roles empty_world)))
       = [DropIfExistsFoo, CreateFoo, HasTablePrivilege INSERT, DropFoo]"
proof -
  let ?wu = "Str ''postgres://w:p@host/datastore''"
  let ?ru = "Str ''postgres://r:p@host/datastore''"
  have urls: "write_url example_roles = Some ?wu" "read_url example_roles = Some ?ru"
    by (simp_all add: example_roles_def)
  have part: "fst (read_connection_has_correct_privileges (failing_backend q) example_roles
                empty_world) = Inl (DBAPIError ''refused'')
      \<and> \<not> foo (snd (read_connection_has_correct_privileges (failing_backend q) example_roles
                empty_world))
      \<and> statements (trace (snd (read_connection_has_correct_privileges (failing_backend q)
                example_roles empty_world))) = sent"
    if q: "q = CreateFoo \<and> sent = [DropIfExistsFoo, CreateFoo, DropFoo]
           \<or> q = HasTablePrivilege INSERT
             \<and> sent = [DropIfExistsFoo, CreateFoo, HasTablePrivilege INSERT, DropFoo]"
    for q sent
  proof -
    let ?be = "failing_backend q"
    let ?w1 = "snd (db_call ?be (Connect ?wu) empty_world)"
    let ?w2 = "snd (db_call ?be (Execute ?wu DropIfExistsFoo [Str ''CREATE TABLE public._foo ()'']) ?w1)"
    let ?w3 = "snd (db_call ?be (Connect ?ru) ?w2)"
    let ?w4 = "snd (probe_body ?be ?wu ?ru ?w3)"
    have c1: "db_call ?be (Connect ?wu) empty_world = (Inr True, ?w1)"
      by (simp add: db_call_def Let_def failing_backend_def)
    have c2: "db_call ?be (Execute ?wu DropIfExistsFoo [Str ''CREATE TABLE public._foo ()'']) ?w1
                = (Inr True, ?w2)"
      using q by (auto simp: db_call_def Let_def failing_backend_def)
    have c3: "db_call ?be (Connect ?ru) ?w2 = (Inr True, ?w3)"
      by (simp add: db_call_def Let_def failing_backend_def)
    have body: "probe_body ?be ?wu ?ru ?w3 = (Inl (DBAPIError ''refused''), ?w4)"
      using q by (auto simp: probe_body_def db_call_def Let_def failing_backend_def)
    have st4: "statements (trace ?w4) = butlast sent"
      using q by (auto simp: probe_body_def db_call_def Let_def failing_backend_def
          empty_world_def)
    have ok: "respond ?be (trace ?w4) (Execute ?wu DropFoo []) = Returned True"
      using q by (auto simp: failing_backend_def)
    note t = probe_cleanup [OF urls c1 c2 c3 body refl]
    from t ok have a: "fst (read_connection_has_correct_privileges ?be example_roles empty_world)
          = Inl (DBAPIError ''refused'')
        \<and> \<not> foo (snd (read_connection_has_correct_privileges ?be example_roles empty_world))"
      by blast
    from t have "statements (trace (snd (read_connection_has_correct_privileges ?be example_roles
          empty_world))) = statements (trace ?w4) @ [DropFoo]"
      by (simp add: statements_append)
    with st4 q have b: "statements (trace (snd (read_connection_has_correct_privileges ?be
          example_roles empty_world))) = sent"
      by auto
    from a b show ?thesis by simp
  qed
  from part [of CreateFoo "[DropIfExistsFoo, CreateFoo, DropFoo]"]
       part [of "HasTablePrivilege INSERT"
                "[DropIfExistsFoo, CreateFoo, HasTablePrivilege INSERT, DropFoo]"]
  show ?thesis by simp
qed

text \<open>
  The read role has INSERT on the probe table and the final DROP is refused: the call
  raises the error of the DROP, not the verdict, and the probe table stays.
\<close>

theorem probe_cleanup_counterexample:
  "trace (snd (read_connection_has_correct_privileges (failing_backend DropFoo) example_roles
                 empty_world))
     = [(Connect (Str ''postgres://w:p@host/datastore''), Returned True),
        (Execute (Str ''postgres://w:p@host/datastore'') DropIfExistsFoo
           [Str ''CREATE TABLE public._foo ()''], Returned True),
        (Connect (Str ''postgres://r:p@host/datastore''), Returned True),
        (Execute (Str ''postgres://w:p@host/datastore'') CreateFoo [], Returned True),
        (Execute (Str ''postgres://r:p@host/datastore'') (HasTablePrivilege INSERT) [],
           Returned True),
        (Execute (Str ''postgres://w:p@host/datastore'') DropFoo [], Failed ''refused'')]
   \<and> fst (read_connection_has_correct_privileges (failing_backend DropFoo) example_roles
            empty_world) = Inl (DBAPIError ''refused'')
   \<and> foo (snd (read_connection_has_correct_privileges (failing_backend DropFoo) example_roles
                 empty_world))"
  by (simp add: run_defs failing_backend_def example_roles_def empty_world_def)

subsection \<open>The alias view and the type function\<close>

lemma sends_refl: "trace w' = trace w \<Longrightarrow> sends S w w'"
  by (simp add: sends_def)

lemma sends_trans: "sends S w w1 \<Longrightarrow> sends S w1 w2 \<Longrightarrow> sends S w w2"
  by (auto simp: sends_def statements_append)

lemma sends_mono: "sends S w w' \<Longrightarrow> S \<subseteq> T \<Longrightarrow> sends T w w'"
  by (auto simp: sends_def)

lemma sends_same_trace: "sends S w w' \<Longrightarrow> trace v = trace w \<Longrightarrow> sends S v w'"
  by (simp add: sends_def)

lemma sends_issued: "sends S w w' \<Longrightarrow> set (issued w w') \<subseteq> S"
  by (auto simp: sends_def issued_def)

lemma db_call_sends:
  "db_call be c w = (r, w') \<Longrightarrow> (case c of Execute url q ps \<Rightarrow> q \<in> S | _ \<Rightarrow> True)
     \<Longrightarrow> sends S w w'"
  by (auto simp: sends_def dest!: db_call_frame split: call.splits)

lemma is_read_only_loop_sends:
  "is_read_only_loop be us w = (r, w') \<Longrightarrow> sends {HasSchemaPrivilege} w w'"
proof (induction us arbitrary: w)
  case Nil
  then show ?case by (simp add: sends_refl)
next
  case (Cons u us)
  obtain r1 w1 where c1: "db_call be (Connect u) w = (r1, w1)"
    by (cases "db_call be (Connect u) w")
  obtain r2 w2 where c2: "db_call be (Execute u HasSchemaPrivilege []) w1 = (r2, w2)"
    by (cases "db_call be (Execute u HasSchemaPrivilege []) w1")
  have s1: "sends {HasSchemaPrivilege} w w1"
    by (rule db_call_sends [OF c1]) simp
  have s2: "sends {HasSchemaPrivilege} w w2"
    by (rule sends_trans [OF s1 db_call_sends [OF c2]]) simp
  show ?case
  proof (cases r1)
    case (Inl e)
    with Cons.prems c1 s1 show ?thesis by auto
  next
    case (Inr b1)
    show ?thesis
    proof (cases r2)
      case (Inl e)
      with Cons.prems c1 c2 \<open>r1 = Inr b1\<close> s2 show ?thesis by auto
    next
      case (Inr b2)
      show ?thesis
      proof (cases b2)
        case True
        with Cons.prems c1 c2 \<open>r1 = Inr b1\<close> Inr s2 show ?thesis by auto
      next
        case False
        with Cons.prems c1 c2 \<open>r1 = Inr b1\<close> Inr
        have "is_read_only_loop be us w2 = (r, w')" by simp
        from sends_trans [OF s2 Cons.IH [OF this]] show ?thesis .
      qed
    qed
  qed
qed

lemma is_read_only_database_sends:
  "sends {HasSchemaPrivilege} w (snd (is_read_only_database be self w))"
proof -
  obtain r w' where p: "is_read_only_database be self w = (r, w')"
    by (cases "is_read_only_database be self w")
  have "sends {HasSchemaPrivilege} w w'"
    using p is_read_only_loop_sends [of be _ w r w']
    by (auto simp: is_read_only_database_def sends_refl simp del: is_read_only_loop.simps
        split: sum.splits)
  then show ?thesis by (simp add: p)
qed

lemma privilege_loop_sends:
  "privilege_loop be ru ps w = (r, w') \<Longrightarrow> sends probe_statements w w'"
proof (induction ps arbitrary: w)
  case Nil
  then show ?case by (simp add: sends_refl)
next
  case (Cons p ps)
  obtain r1 w1 where c1: "db_call be (Execute ru (HasTablePrivilege p) []) w = (r1, w1)"
    by (cases "db_call be (Execute ru (HasTablePrivilege p) []) w")
  have s1: "sends probe_statements w w1"
    by (rule db_call_sends [OF c1]) simp
  show ?case
  proof (cases r1)
    case (Inl e)
    with Cons.prems c1 s1 show ?thesis by auto
  next
    case (Inr b)
    show ?thesis
    proof (cases b)
      case True
      with Cons.prems c1 Inr s1 show ?thesis by auto
    next
      case False
      with Cons.prems c1 Inr have "privilege_loop be ru ps w1 = (r, w')" by simp
      from sends_trans [OF s1 Cons.IH [OF this]] show ?thesis .
    qed
  qed
qed

lemma probe_body_sends:
  "probe_body be wu ru w = (r, w') \<Longrightarrow> sends probe_statements w w'"
proof -
  assume a: "probe_body be wu ru w = (r, w')"
  obtain r1 w1 where c1: "db_call be (Execute wu CreateFoo []) w = (r1, w1)"
    by (cases "db_call be (Execute wu CreateFoo []) w")
  have s1: "sends probe_statements w w1"
    by (rule db_call_sends [OF c1]) simp
  show ?thesis
  proof (cases r1)
    case (Inl e)
    with a c1 s1 show ?thesis by (auto simp: probe_body_def)
  next
    case (Inr b)
    with a c1 have "privilege_loop be ru [INSERT, UPDATE, DELETE] w1 = (r, w')"
      by (simp add: probe_body_def)
    from sends_trans [OF s1 privilege_loop_sends [OF this]] show ?thesis .
  qed
qed

lemma read_connection_sends:
  "sends probe_statements w (snd (read_connection_has_correct_privileges be self w))"
proof (cases "write_url self")
  case None
  then show ?thesis
    by (simp add: read_connection_has_correct_privileges_def getattr_def sends_refl)
next
  case (Some wu)
  obtain r1 w1 where c1: "db_call be (Connect wu) w = (r1, w1)"
    by (cases "db_call be (Connect wu) w")
  obtain r2 w2 where c2: "db_call be (Execute wu DropIfExistsFoo
                            [Str ''CREATE TABLE public._foo ()'']) w1 = (r2, w2)"
    by (cases "db_call be (Execute wu DropIfExistsFoo [Str ''CREATE TABLE public._foo ()'']) w1")
  have s1: "sends probe_statements w w1"
    by (rule db_call_sends [OF c1]) simp
  have s2: "sends probe_statements w w2"
    by (rule sends_trans [OF s1 db_call_sends [OF c2]]) simp
  show ?thesis
  proof (cases "read_url self")
    case None
    with Some c1 c2 s1 s2 show ?thesis
      by (auto simp: read_connection_has_correct_privileges_def getattr_def split: sum.splits)
  next
    case ru: (Some ru)
    obtain r3 w3 where c3: "db_call be (Connect ru) w2 = (r3, w3)"
      by (cases "db_call be (Connect ru) w2")
    obtain r4 w4 where c4: "probe_body be wu ru w3 = (r4, w4)"
      by (cases "probe_body be wu ru w3")
    obtain r5 w5 where c5: "db_call be (Execute wu DropFoo []) w4 = (r5, w5)"
      by (cases "db_call be (Execute wu DropFoo []) w4")
    have s3: "sends probe_statements w w3"
      by (rule sends_trans [OF s2 db_call_sends [OF c3]]) simp
    have s4: "sends probe_statements w w4"
      by (rule sends_trans [OF s3 probe_body_sends [OF c4]])
    have s5: "sends probe_statements w w5"
      by (rule sends_trans [OF s4 db_call_sends [OF c5]]) simp
    show ?thesis
      using Some ru c1 c2 c3 c4 c5 s1 s2 s3 s5
      by (auto simp: read_connection_has_correct_privileges_def getattr_def split: sum.splits)
  qed
qed

lemma create_alias_table_sends:
  "sends {CreateAliasTable} w (snd (create_alias_table be w))"
proof -
  obtain r w' where p: "create_alias_table be w = (r, w')"
    by (cases "create_alias_table be w")
  have "sends {CreateAliasTable} w w'"
    using p
    by (auto simp: create_alias_table_def sends_def statements_append
        split: option.splits prod.splits sum.splits dest!: db_call_frame)
  then show ?thesis by (simp add: p)
qed

lemma add_is_valid_type_function_sends:
  "sends {CreateIsValidType} w (snd (add_is_valid_type_function be w))"
proof -
  obtain r w' where p: "add_is_valid_type_function be w = (r, w')"
    by (cases "add_is_valid_type_function be w")
  have "sends {CreateIsValidType} w w'"
    using p
    by (auto simp: add_is_valid_type_function_def sends_def statements_append
        split: option.splits prod.splits sum.splits dest!: db_call_frame)
  then show ?thesis by (simp add: p)
qed

lemma sends_target: "sends S w w' \<Longrightarrow> trace v = trace w' \<Longrightarrow> sends S w v"
  by (simp add: sends_def)

lemma permission_checks_without_alias:
  assumes P: "P = read_connection_has_correct_privileges be A (snd (is_read_only_database be A w))"
      and n: "\<not> (engine_is_pg be \<and> fst (is_read_only_database be A w) = Inr False
             \<and> (debug_set cfg \<or> same_ckan_and_datastore_db A = Inr False)
             \<and> (legacy_mode A \<or> fst P = Inr True \<or> (fst P = Inr False \<and> debug_set cfg)))"
  shows "sends ({HasSchemaPrivilege} \<union> probe_statements) w (snd (permission_checks be A cfg w))"
proof -
  let ?S = "{HasSchemaPrivilege} \<union> probe_statements"
  obtain r1 w1 where p1: "is_read_only_database be A w = (r1, w1)"
    by (cases "is_read_only_database be A w")
  obtain rp wp where pp: "read_connection_has_correct_privileges be A w1 = (rp, wp)"
    by (cases "read_connection_has_correct_privileges be A w1")
  have "sends {HasSchemaPrivilege} w w1"
    using is_read_only_database_sends [of w be A] by (simp add: p1)
  then have s1: "sends ?S w w1"
    by (rule sends_mono) blast
  have "sends probe_statements w1 wp"
    using read_connection_sends [of w1 be A] by (simp add: pp)
  then have "sends ?S w1 wp"
    by (rule sends_mono) blast
  with s1 have sp: "sends ?S w wp" by (rule sends_trans)
  have s0: "sends ?S w w" by (simp add: sends_refl)
  have Pv: "fst P = rp" "snd P = wp" by (simp_all add: P p1 pp)
  let ?leak = "if \<not> debug_set cfg then same_ckan_and_datastore_db A else Inr False"
  have t: "trace (snd (permission_checks be A cfg w)) = trace w
         \<or> trace (snd (permission_checks be A cfg w)) = trace w1
         \<or> trace (snd (permission_checks be A cfg w)) = trace wp"
  proof (cases "engine_is_pg be")
    case False
    then show ?thesis by (simp add: permission_checks_def)
  next
    case pg: True
    show ?thesis
    proof (cases r1)
      case (Inl e)
      with pg show ?thesis by (simp add: permission_checks_def p1)
    next
      case (Inr b1)
      show ?thesis
      proof (cases b1)
        case True
        with pg Inr show ?thesis by (simp add: permission_checks_def p1)
      next
        case False
        note ro = Inr False
        show ?thesis
        proof (cases ?leak)
          case (Inl e)
          with pg ro show ?thesis by (simp add: permission_checks_def p1)
        next
          case (Inr same)
          show ?thesis
          proof (cases same)
            case True
            with pg ro Inr show ?thesis by (simp add: permission_checks_def p1)
          next
            case False
            with Inr have lk: "?leak = Inr False" by simp
            then have "debug_set cfg \<or> same_ckan_and_datastore_db A = Inr False"
              by (auto split: if_splits)
            with n pg ro p1 have rest: "\<not> legacy_mode A" "rp \<noteq> Inr True"
                "\<not> (rp = Inr False \<and> debug_set cfg)"
              by (auto simp: Pv)
            show ?thesis
            proof (cases rp)
              case (Inl e)
              with pg ro lk rest show ?thesis by (simp add: permission_checks_def p1 pp)
            next
              case (Inr ok)
              with rest have "rp = Inr False" "\<not> debug_set cfg" by (cases ok; simp)+
              with pg ro lk rest show ?thesis by (simp add: permission_checks_def p1 pp)
            qed
          qed
        qed
      qed
    qed
  qed
  then show ?thesis
    using sends_target [OF s0] sends_target [OF s1] sends_target [OF sp] by blast
qed

text \<open>
  The alias view is gated. In a run of \<^verbatim>\<open>configure\<close> that assigns the URLs, the
  statement that creates it is sent only on PostgreSQL, on a database that is not
  read-only, when the same-database check was skipped by \<^verbatim>\<open>debug\<close> or negative, and,
  outside legacy mode, when the probe returned True or returned False with \<^verbatim>\<open>debug\<close>
  set. On another engine or a read-only database it is not sent.
\<close>

lemma alias_view_gating:
  assumes cfg: "cfg write_url_key = Some wu" "cfg ''sqlalchemy.url'' = Some c"
               "ru = (case cfg read_url_key of None \<Rightarrow> wu | Some r \<Rightarrow> r)"
      and np: "running_paster (argv be) = Inr False"
      and A: "A = assigned self cfg c wu ru"
      and P: "P = read_connection_has_correct_privileges be A (snd (is_read_only_database be A w))"
      and R: "R = configure be self cfg w"
  shows "(CreateAliasTable \<in> set (issued w (snd (snd R))) \<longrightarrow>
            engine_is_pg be \<and> fst (is_read_only_database be A w) = Inr False
          \<and> (debug_set cfg \<or> same_ckan_and_datastore_db A = Inr False)
          \<and> (legacy_mode A \<or> fst P = Inr True \<or> (fst P = Inr False \<and> debug_set cfg)))
       \<and> (\<not> engine_is_pg be \<or> fst (is_read_only_database be A w) = Inr True \<longrightarrow>
            CreateAliasTable \<notin> set (issued w (snd (snd R))))"
proof -
  let ?cond = "engine_is_pg be \<and> fst (is_read_only_database be A w) = Inr False
          \<and> (debug_set cfg \<or> same_ckan_and_datastore_db A = Inr False)
          \<and> (legacy_mode A \<or> fst P = Inr True \<or> (fst P = Inr False \<and> debug_set cfg))"
  let ?pc = "permission_checks be A cfg w"
  let ?S = "{HasSchemaPrivilege} \<union> probe_statements \<union> {CreateIsValidType}"
  note cw = configure_world [OF cfg(1) np cfg(2) cfg(3), of self w, folded A R]
  have one: "CreateAliasTable \<notin> set (issued w (snd (snd R)))" if n: "\<not> ?cond"
  proof -
    have "sends ({HasSchemaPrivilege} \<union> probe_statements) w (snd ?pc)"
      by (rule permission_checks_without_alias [OF P n])
    then have s1: "sends ?S w (snd ?pc)"
      by (rule sends_mono) blast
    have "sends {CreateIsValidType} (wrap_resource_show (snd ?pc))
            (snd (add_is_valid_type_function be (wrap_resource_show (snd ?pc))))"
      by (rule add_is_valid_type_function_sends)
    then have "sends {CreateIsValidType} (snd ?pc)
            (snd (add_is_valid_type_function be (wrap_resource_show (snd ?pc))))"
      by (rule sends_same_trace) simp
    then have "sends ?S (snd ?pc)
            (snd (add_is_valid_type_function be (wrap_resource_show (snd ?pc))))"
      by (rule sends_mono) blast
    with s1 have s2: "sends ?S w
            (snd (add_is_valid_type_function be (wrap_resource_show (snd ?pc))))"
      by (rule sends_trans)
    have "sends ?S w (snd (snd R))"
      unfolding cw using s1 s2 by (simp split: sum.splits)
    from sends_issued [OF this] show ?thesis by auto
  qed
  have two: "CreateAliasTable \<notin> set (issued w (snd (snd R)))"
    if "\<not> engine_is_pg be \<or> fst (is_read_only_database be A w) = Inr True"
    by (rule one) (use that in auto)
  show ?thesis
    using one two by blast
qed

lemmas more_example_defs = other_engine_backend_def replica_backend_def separate_config_def
  leaky_backend_def

lemma alias_view_gating_example:
  "CreateAliasTable \<notin> set (issued empty_world
        (snd (snd (configure other_engine_backend DatastorePlugin separate_config empty_world))))
   \<and> CreateAliasTable \<notin> set (issued empty_world
        (snd (snd (configure replica_backend DatastorePlugin separate_config empty_world))))
   \<and> CreateAliasTable \<in> set (issued empty_world
        (snd (snd (configure writable_backend DatastorePlugin separate_config empty_world))))
   \<and> fst (read_connection_has_correct_privileges writable_backend
            (assigned DatastorePlugin separate_config (Str ''postgres://c:p@main/ckan'')
               (Str ''postgres://w:p@host/datastore'') (Str ''postgres://r:p@host/datastore''))
            (snd (is_read_only_database writable_backend
               (assigned DatastorePlugin separate_config (Str ''postgres://c:p@main/ckan'')
                  (Str ''postgres://w:p@host/datastore'') (Str ''postgres://r:p@host/datastore''))
               empty_world))) = Inr True"
proof -
  let ?c = "Str ''postgres://c:p@main/ckan''"
  let ?wu = "Str ''postgres://w:p@host/datastore''"
  let ?ru = "Str ''postgres://r:p@host/datastore''"
  let ?A = "assigned DatastorePlugin separate_config ?c ?wu ?ru"
  have h: "separate_config write_url_key = Some ?wu"
          "separate_config ''sqlalchemy.url'' = Some ?c"
          "?ru = (case separate_config read_url_key of None \<Rightarrow> ?wu | Some r \<Rightarrow> r)"
    by (simp_all add: separate_config_def)
  have np: "running_paster (argv (stub_backend pg creates grants)) = Inr False"
    for pg creates grants
    by (rule stub_not_paster)
  note t1 = alias_view_gating [OF h np [of False "\<lambda>u. True" "\<lambda>p. False"] refl refl refl,
      where self = DatastorePlugin and w = empty_world, folded other_engine_backend_def]
  note t2 = alias_view_gating [OF h np [of True "\<lambda>u. False" "\<lambda>p. False"] refl refl refl,
      where self = DatastorePlugin and w = empty_world, folded replica_backend_def]
  note t3 = alias_view_gating [OF h np [of True "\<lambda>u. True" "\<lambda>p. False"] refl refl refl,
      where self = DatastorePlugin and w = empty_world, folded writable_backend_def]
  have e1: "\<not> engine_is_pg other_engine_backend"
    by (simp add: other_engine_backend_def stub_backend_def)
  have e2: "fst (is_read_only_database replica_backend ?A empty_world) = Inr True"
    by (simp add: run_defs example_defs more_example_defs)
  have e3: "CreateAliasTable \<in> set (issued empty_world
        (snd (snd (configure writable_backend DatastorePlugin separate_config empty_world))))"
    by (simp add: run_defs example_defs more_example_defs issued_def)
  have e4: "\<not> legacy_mode ?A \<and> \<not> debug_set separate_config"
    by (simp add: separate_config_def debug_set_def)
  from t1 e1 have a: "CreateAliasTable \<notin> set (issued empty_world
        (snd (snd (configure other_engine_backend DatastorePlugin separate_config empty_world))))"
    by blast
  from t2 e2 have b: "CreateAliasTable \<notin> set (issued empty_world
        (snd (snd (configure replica_backend DatastorePlugin separate_config empty_world))))"
    by blast
  from t3 e3 e4 have c: "fst (read_connection_has_correct_privileges writable_backend ?A
            (snd (is_read_only_database writable_backend ?A empty_world))) = Inr True"
    by blast
  from a b c e3 show ?thesis by simp
qed

text \<open>
  C6. Both schema objects belong to a PostgreSQL database that is not a read-only
  replica, and \<^verbatim>\<open>configure\<close> holds the alias view back elsewhere. It does not hold the
  type function back: \<^verbatim>\<open>_add_is_valid_type_function\<close> is its last line, outside the
  engine and read-only branches. On a read-only replica \<^verbatim>\<open>configure\<close> finds that no URL
  has CREATE, logs that the checks and the creation of the alias view are skipped, then
  sends the statement that creates the type function and ends with the error of the
  database. On an engine that is not PostgreSQL it sends that statement too.
\<close>

theorem type_function_not_gated:
  "fst (is_read_only_database strict_replica_backend
          (fst (snd (configure strict_replica_backend DatastorePlugin separate_config
                       empty_world)))
          empty_world) = Inr True
   \<and> log_records (snd (snd (configure strict_replica_backend DatastorePlugin separate_config
                               empty_world)))
       = [(WARN, msg_read_only)]
   \<and> issued empty_world
        (snd (snd (configure strict_replica_backend DatastorePlugin separate_config
                     empty_world)))
       = [HasSchemaPrivilege, HasSchemaPrivilege, HasSchemaPrivilege, CreateIsValidType]
   \<and> fst (configure strict_replica_backend DatastorePlugin separate_config empty_world)
       = Inl (DBAPIError ''cannot execute in a read-only transaction'')
   \<and> \<not> engine_is_pg other_engine_backend
   \<and> issued empty_world
        (snd (snd (configure other_engine_backend DatastorePlugin separate_config empty_world)))
       = [CreateIsValidType]"
  by (simp add: run_defs example_defs more_example_defs issued_def strict_replica_backend_def)

subsection \<open>The wrapper is installed once\<close>

lemma is_read_only_loop_actions:
  "actions_resource_show (snd (is_read_only_loop be us w)) = actions_resource_show w"
proof (induction us arbitrary: w)
  case Nil show ?case by simp
next
  case (Cons u us)
  obtain r1 w1 where c1: "db_call be (Connect u) w = (r1, w1)"
    by (cases "db_call be (Connect u) w")
  obtain r2 w2 where c2: "db_call be (Execute u HasSchemaPrivilege []) w1 = (r2, w2)"
    by (cases "db_call be (Execute u HasSchemaPrivilege []) w1")
  show ?case
    using db_call_frame [OF c1] db_call_frame [OF c2] Cons.IH [of w2]
    by (simp add: c1 c2 split: sum.splits)
qed

lemma is_read_only_database_actions:
  "actions_resource_show (snd (is_read_only_database be self w)) = actions_resource_show w"
  by (simp add: is_read_only_database_def is_read_only_loop_actions
      del: is_read_only_loop.simps split: sum.splits)

lemma read_connection_actions:
  "actions_resource_show (snd (read_connection_has_correct_privileges be self w))
     = actions_resource_show w"
proof -
  obtain r w' where p: "read_connection_has_correct_privileges be self w = (r, w')"
    by (cases "read_connection_has_correct_privileges be self w")
  from read_connection_frame [OF p] show ?thesis by (simp add: p)
qed

lemma permission_checks_actions:
  "actions_resource_show (snd (permission_checks be A cfg w)) = actions_resource_show w"
proof -
  obtain r1 w1 where p1: "is_read_only_database be A w = (r1, w1)"
    by (cases "is_read_only_database be A w")
  obtain rp wp where pp: "read_connection_has_correct_privileges be A w1 = (rp, wp)"
    by (cases "read_connection_has_correct_privileges be A w1")
  have a1: "actions_resource_show w1 = actions_resource_show w"
    using is_read_only_database_actions [of be A w] by (simp add: p1)
  have ap: "actions_resource_show wp = actions_resource_show w"
    using read_connection_actions [of be A w1] by (simp add: pp a1)
  show ?thesis
    by (simp add: permission_checks_def p1 pp a1 ap create_alias_table_actions
        split: sum.splits bool.splits)
qed

lemma wrap_resource_show_actions:
  "actions_resource_show (wrap_resource_show v)
     = (if hasattr_datastore_wrapped (actions_resource_show v) then actions_resource_show v
        else NewResourceShow (actions_resource_show v))"
  by (simp add: wrap_resource_show_def get_action_def Let_def)

lemma configure_actions:
  "(actions_resource_show (snd (snd (configure be self cfg w))) = actions_resource_show w
    \<or> actions_resource_show (snd (snd (configure be self cfg w)))
        = actions_resource_show (wrap_resource_show w))
   \<and> (fst (configure be self cfg w) = Inr () \<and> running_paster (argv be) = Inr False \<longrightarrow>
        actions_resource_show (snd (snd (configure be self cfg w)))
          = actions_resource_show (wrap_resource_show w))"
proof (cases "cfg write_url_key")
  case None
  then show ?thesis by (simp add: configure_def Let_def)
next
  case (Some wu)
  show ?thesis
  proof (cases "running_paster (argv be)")
    case (Inl e)
    with Some show ?thesis by (simp add: configure_def Let_def)
  next
    case (Inr paster)
    show ?thesis
    proof (cases paster)
      case True
      with Some Inr show ?thesis by (simp add: configure_def Let_def)
    next
      case False
      with Inr have np: "running_paster (argv be) = Inr False" by simp
      show ?thesis
      proof (cases "cfg ''sqlalchemy.url''")
        case None
        with Some np show ?thesis by (simp add: configure_def Let_def getitem_def)
      next
        case c: (Some c)
        let ?ru = "case cfg read_url_key of None \<Rightarrow> wu | Some r \<Rightarrow> r"
        let ?A = "assigned self cfg c wu ?ru"
        obtain r1 w1 where p: "permission_checks be ?A cfg w = (r1, w1)"
          by (cases "permission_checks be ?A cfg w")
        have a1: "actions_resource_show w1 = actions_resource_show w"
          using permission_checks_actions [of be ?A cfg w] by (simp add: p)
        have aw: "actions_resource_show (wrap_resource_show w1)
                    = actions_resource_show (wrap_resource_show w)"
          by (simp add: wrap_resource_show_actions a1)
        obtain r2 w2 where q: "add_is_valid_type_function be (wrap_resource_show w1) = (r2, w2)"
          by (cases "add_is_valid_type_function be (wrap_resource_show w1)")
        have a2: "actions_resource_show w2 = actions_resource_show (wrap_resource_show w)"
          using add_is_valid_type_function_actions [of be "wrap_resource_show w1"]
          by (simp add: q aw)
        show ?thesis
          using a1 a2 np
          by (simp add: configure_assigned [OF Some np c refl] p q split: sum.splits)
      qed
    qed
  qed
qed

lemma wrap_keeps_once:
  "wraps (actions_resource_show v) \<le> 1 \<Longrightarrow>
     wraps (actions_resource_show (wrap_resource_show v)) = 1"
  by (cases "actions_resource_show v") (simp_all add: wrap_resource_show_actions)

lemma configure_wraps:
  assumes "wraps (actions_resource_show w) \<le> 1"
  shows "wraps (actions_resource_show (snd (snd (configure be self cfg w)))) \<le> 1
       \<and> wraps (actions_resource_show w)
            \<le> wraps (actions_resource_show (snd (snd (configure be self cfg w))))
       \<and> (fst (configure be self cfg w) = Inr () \<and> running_paster (argv be) = Inr False \<longrightarrow>
            wraps (actions_resource_show (snd (snd (configure be self cfg w)))) = 1)"
  using configure_actions [of be self cfg w] wrap_keeps_once [OF assms] assms
  by auto

lemma configure_all_wraps:
  assumes "wraps (actions_resource_show w) \<le> 1"
  shows "wraps (actions_resource_show (snd (snd (configure_all be self cfgs w)))) \<le> 1
       \<and> wraps (actions_resource_show w)
            \<le> wraps (actions_resource_show (snd (snd (configure_all be self cfgs w))))
       \<and> (Inr () \<in> set (fst (configure_all be self cfgs w))
            \<and> running_paster (argv be) = Inr False \<longrightarrow>
            wraps (actions_resource_show (snd (snd (configure_all be self cfgs w)))) = 1)"
  using assms
proof (induction cfgs arbitrary: self w)
  case Nil
  then show ?case by simp
next
  case (Cons cfg cfgs)
  obtain r self' w' where c: "configure be self cfg w = (r, self', w')"
    by (cases "configure be self cfg w")
  obtain rs self'' w'' where ca: "configure_all be self' cfgs w' = (rs, self'', w'')"
    by (cases "configure_all be self' cfgs w'")
  from configure_wraps [OF Cons.prems, of be self cfg]
  have s: "wraps (actions_resource_show w') \<le> 1"
          "wraps (actions_resource_show w) \<le> wraps (actions_resource_show w')"
          "r = Inr () \<and> running_paster (argv be) = Inr False \<longrightarrow>
             wraps (actions_resource_show w') = 1"
    by (simp_all add: c)
  from Cons.IH [OF s(1), of self']
  have ih: "wraps (actions_resource_show w'') \<le> 1"
           "wraps (actions_resource_show w') \<le> wraps (actions_resource_show w'')"
           "Inr () \<in> set rs \<and> running_paster (argv be) = Inr False \<longrightarrow>
              wraps (actions_resource_show w'') = 1"
    by (simp_all add: ca)
  show ?case
    using s ih by (auto simp: c ca)
qed

lemma call_action_queries:
  "call_action be self a d w = (r, w') \<Longrightarrow>
     \<exists>t. trace w' = trace w @ t
       \<and> length (statements t) \<le> wraps a
       \<and> set (statements t) \<subseteq> {SelectTableMetadata}
       \<and> (\<forall>d'. r = Inr d' \<longrightarrow> statements t = replicate (wraps a) SelectTableMetadata)"
proof (induction a arbitrary: r w')
  case ResourceShow
  then show ?case by auto
next
  case (NewResourceShow inner)
  show ?case
  proof (cases "read_url self")
    case None
    with NewResourceShow.prems show ?thesis by (auto simp: getattr_def)
  next
    case (Some ru)
    obtain r1 w1 where c1: "call_action be self inner d w = (r1, w1)"
      by (cases "call_action be self inner d w")
    from NewResourceShow.IH [OF c1] obtain t1 where
      t1: "trace w1 = trace w @ t1" "length (statements t1) \<le> wraps inner"
          "set (statements t1) \<subseteq> {SelectTableMetadata}"
          "\<forall>d'. r1 = Inr d' \<longrightarrow> statements t1 = replicate (wraps inner) SelectTableMetadata"
      by blast
    show ?thesis
    proof (cases r1)
      case (Inl e)
      with NewResourceShow.prems Some c1 t1 show ?thesis by (auto simp: getattr_def)
    next
      case (Inr nd)
      obtain r2 w2 where c2: "db_call be (Connect ru) w1 = (r2, w2)"
        by (cases "db_call be (Connect ru) w1")
      from db_call_frame [OF c2]
      have t2: "trace w2 = trace w @ (t1 @ [(Connect ru, respond be (trace w1) (Connect ru))])"
        by (simp add: t1)
      show ?thesis
      proof (cases r2)
        case (Inl e)
        with NewResourceShow.prems Some c1 c2 \<open>r1 = Inr nd\<close>
        have "w' = w2" "r = Inl UnboundLocalError" by (auto simp: getattr_def)
        with t2 t1 show ?thesis
          by (auto simp: statements_append)
      next
        case conn: (Inr b2)
        show ?thesis
        proof (cases "nd ''id''")
          case None
          obtain r5 w5 where c5: "db_call be (Close ru) w2 = (r5, w5)"
            by (cases "db_call be (Close ru) w2")
          from db_call_frame [OF c5] t2
          have t5: "trace w5 = trace w @ (t1 @ [(Connect ru, respond be (trace w1) (Connect ru)),
                      (Close ru, respond be (trace w2) (Close ru))])"
            by simp
          from NewResourceShow.prems Some c1 c2 c5 \<open>r1 = Inr nd\<close> conn None
          have "w' = w5" "\<exists>e. r = Inl e"
            by (auto simp: getattr_def getitem_def split: sum.splits)
          with t5 t1 show ?thesis
            by (auto simp: statements_append)
        next
          case ident: (Some ident)
          obtain r3 w3 where c3: "db_call be (Execute ru SelectTableMetadata [ident]) w2 = (r3, w3)"
            by (cases "db_call be (Execute ru SelectTableMetadata [ident]) w2")
          obtain r5 w5 where c5: "db_call be (Close ru) w3 = (r5, w5)"
            by (cases "db_call be (Close ru) w3")
          from db_call_frame [OF c3] db_call_frame [OF c5] t2
          have t5: "trace w5 = trace w @ (t1 @ [(Connect ru, respond be (trace w1) (Connect ru)),
                      (Execute ru SelectTableMetadata [ident],
                         respond be (trace w2) (Execute ru SelectTableMetadata [ident])),
                      (Close ru, respond be (trace w3) (Close ru))])"
            by simp
          have st: "statements (t1 @ [(Connect ru, respond be (trace w1) (Connect ru)),
                      (Execute ru SelectTableMetadata [ident],
                         respond be (trace w2) (Execute ru SelectTableMetadata [ident])),
                      (Close ru, respond be (trace w3) (Close ru))])
                    = statements t1 @ [SelectTableMetadata]"
            by (simp add: statements_append)
          from NewResourceShow.prems Some c1 c2 c3 c5 \<open>r1 = Inr nd\<close> conn ident
          have w': "w' = w5"
            by (auto simp: getattr_def getitem_def split: sum.splits)
          have len: "length (statements t1 @ [SelectTableMetadata]) \<le> wraps (NewResourceShow inner)"
            using t1(2) by simp
          have sub: "set (statements t1 @ [SelectTableMetadata]) \<subseteq> {SelectTableMetadata}"
            using t1(3) by simp
          have ok: "\<forall>d'. r = Inr d' \<longrightarrow> statements t1 @ [SelectTableMetadata]
                      = replicate (wraps (NewResourceShow inner)) SelectTableMetadata"
            using t1(4) \<open>r1 = Inr nd\<close> by (simp add: replicate_append_same)
          show ?thesis
            using t5 st len sub ok unfolding w' by metis
        qed
      qed
    qed
  qed
qed

lemma wraps_le_1: "wraps a \<le> 1 \<longleftrightarrow> a = ResourceShow \<or> a = NewResourceShow ResourceShow"
proof (cases a)
  case ResourceShow
  then show ?thesis by simp
next
  case (NewResourceShow b)
  then show ?thesis by (cases b) simp_all
qed

text \<open>
  C7. Start with the platform's \<^verbatim>\<open>resource_show\<close> registered and call \<^verbatim>\<open>configure\<close>
  any number of times. The registered function is then the platform's own or its
  wrapper, never a wrapper of the wrapper; it is the wrapper as soon as one call
  returned normally in a process that is not a paster datastore command. On a function
  that carries the attribute the wrapping step changes nothing. A call of the registered
  function sends at most one query, and exactly one when it is the wrapper and returns.
\<close>

theorem resource_show_wrapped_once:
  assumes start: "actions_resource_show w = ResourceShow"
      and W: "W = configure_all be self cfgs w"
      and a: "a = actions_resource_show (snd (snd W))"
      and C: "C = call_action be' self' a d v"
  shows "(a = ResourceShow \<or> a = NewResourceShow ResourceShow)
       \<and> (Inr () \<in> set (fst W) \<and> running_paster (argv be) = Inr False \<longrightarrow>
            a = NewResourceShow ResourceShow)
       \<and> (hasattr_datastore_wrapped a \<longrightarrow> wrap_resource_show (snd (snd W)) = snd (snd W))
       \<and> length (issued v (snd C)) \<le> 1
       \<and> (a = NewResourceShow ResourceShow \<and> (\<exists>d'. fst C = Inr d') \<longrightarrow>
            issued v (snd C) = [SelectTableMetadata])"
proof -
  have s: "wraps (actions_resource_show w) \<le> 1" by (simp add: start)
  note cw = configure_all_wraps [OF s, of be self cfgs, folded W, folded a]
  from cw have one: "a = ResourceShow \<or> a = NewResourceShow ResourceShow"
    using wraps_le_1 [of a] by blast
  from cw one have two: "Inr () \<in> set (fst W) \<and> running_paster (argv be) = Inr False \<longrightarrow>
            a = NewResourceShow ResourceShow"
    by auto
  have three: "hasattr_datastore_wrapped a \<longrightarrow> wrap_resource_show (snd (snd W)) = snd (snd W)"
    by (simp add: wrap_resource_show_def get_action_def Let_def a)
  obtain r v' where c: "call_action be' self' a d v = (r, v')"
    by (cases "call_action be' self' a d v")
  from call_action_queries [OF c] obtain t where
    t: "trace v' = trace v @ t" "length (statements t) \<le> wraps a"
       "\<forall>d'. r = Inr d' \<longrightarrow> statements t = replicate (wraps a) SelectTableMetadata"
    by blast
  have i: "issued v (snd C) = statements t"
    by (simp add: issued_def C c t(1))
  have four: "length (issued v (snd C)) \<le> 1"
    using t(2) one by (auto simp: i)
  have fc: "fst C = r"
    by (simp add: C c)
  have five: "a = NewResourceShow ResourceShow \<and> (\<exists>d'. fst C = Inr d') \<longrightarrow>
            issued v (snd C) = [SelectTableMetadata]"
  proof (intro impI, elim conjE exE)
    fix d'
    assume a1: "a = NewResourceShow ResourceShow" and f: "fst C = Inr d'"
    from f fc have "r = Inr d'" by simp
    with t(3) have "statements t = replicate (wraps a) SelectTableMetadata" by blast
    moreover have "wraps a = Suc 0" by (simp add: a1)
    ultimately have "statements t = [SelectTableMetadata]" by simp
    then show "issued v (snd C) = [SelectTableMetadata]" unfolding i .
  qed
  from one two three four five show ?thesis by blast
qed

theorem resource_show_wrapped_once_witness:
  "fst twice = [Inr (), Inr ()]
   \<and> actions_resource_show (snd (snd twice)) = NewResourceShow ResourceShow
   \<and> issued (snd (snd twice))
        (snd (call_action writable_backend (fst (snd twice))
                (actions_resource_show (snd (snd twice))) [''id'' \<mapsto> Str ''r1'']
                (snd (snd twice))))
       = [SelectTableMetadata]"
proof -
  have st: "actions_resource_show empty_world = ResourceShow"
    by (simp add: empty_world_def)
  have o: "fst twice = [Inr (), Inr ()]"
    by (simp add: twice_def run_defs example_defs separate_config_def)
  have ru: "read_url (fst (snd twice)) = Some (Str ''postgres://r:p@host/datastore'')"
    by (simp add: twice_def run_defs example_defs separate_config_def)
  have np: "running_paster (argv writable_backend) = Inr False"
    by (simp add: writable_backend_def stub_not_paster)
  note t = resource_show_wrapped_once [OF st twice_def refl refl,
      where be' = writable_backend and self' = "fst (snd twice)"
        and d = "[''id'' \<mapsto> Str ''r1'']" and v = "snd (snd twice)"]
  from t o np have a: "actions_resource_show (snd (snd twice)) = NewResourceShow ResourceShow"
    by simp
  have ok: "\<exists>d'. fst (call_action writable_backend (fst (snd twice))
                (NewResourceShow ResourceShow) [''id'' \<mapsto> Str ''r1''] (snd (snd twice))) = Inr d'"
    by (simp add: ru getattr_def getitem_def db_call_def Let_def example_defs)
  from t a ok have b: "issued (snd (snd twice))
        (snd (call_action writable_backend (fst (snd twice))
                (actions_resource_show (snd (snd twice))) [''id'' \<mapsto> Str ''r1'']
                (snd (snd twice))))
       = [SelectTableMetadata]"
    by simp
  from o a b show ?thesis by simp
qed

end
